theory Spec2Isabelle
  imports Main "HOL-Library.Sublist"
begin

section \<open>Fingerprint synthesis: \<open>getHostMachineConfig\<close>\<close>

text \<open>
  The TypeScript interface \<open>FingerprintConfig\<close>. The three appearance fields are string
  literal unions in the source and are datatypes here.
\<close>

datatype colorScheme = Dark | Light
datatype reducedMotion = Reduce | NoPreference
datatype forcedColors = Active | NoForcedColors

record FingerprintConfig =
  deviceName :: string
  locale_str :: string
  timezoneId :: string
  colorScheme :: colorScheme
  reducedMotion :: reducedMotion
  forcedColors :: forcedColors

text \<open>
  The host signals that \<open>getHostMachineConfig\<close> reads from its environment:
  \<open>process.env.LANG\<close>, \<open>new Date().getTimezoneOffset()\<close> (minutes, negative east of
  UTC), \<open>new Date().getHours()\<close> and \<open>os.platform()\<close>.
\<close>

record host =
  envLANG :: "string option"
  timezoneOffset :: int
  hours :: int
  platform :: string

text \<open>
  JavaScript's \<open>a || b\<close> on an optional string: \<open>undefined\<close> and the empty string are
  falsy.
\<close>

definition orElse :: "string option \<Rightarrow> string \<Rightarrow> string" where
  "orElse a b = (case a of None \<Rightarrow> b | Some s \<Rightarrow> (if s = [] then b else s))"

definition getHostMachineConfig :: "string option \<Rightarrow> host \<Rightarrow> FingerprintConfig" where
  "getHostMachineConfig userLocale h =
    (let systemLocale = orElse userLocale (orElse (envLANG h) ''en-US'');
         off = timezoneOffset h;
         timezoneId =
           (if off \<le> -480 \<and> off > -600 then ''Asia/Shanghai''
            else if off \<le> -540 then ''Asia/Tokyo''
            else if off \<le> -420 \<and> off > -480 then ''Asia/Bangkok''
            else if off \<le> 0 \<and> off > -60 then ''Europe/London''
            else if off \<le> 60 \<and> off > 0 then ''Europe/Berlin''
            else if off \<le> 300 \<and> off > 240 then ''America/New_York''
            else ''America/New_York'');
         hour = hours h;
         colorScheme = (if hour \<ge> 19 \<or> hour < 7 then Dark else Light);
         reducedMotion = NoPreference;
         forcedColors = NoForcedColors;
         deviceName =
           (if platform h = ''darwin'' then ''Desktop Safari''
            else if platform h = ''win32'' then ''Desktop Edge''
            else if platform h = ''linux'' then ''Desktop Firefox''
            else ''Desktop Chrome'');
         deviceName = ''Desktop Chrome''
     in \<lparr> deviceName = deviceName, locale_str = systemLocale, timezoneId = timezoneId,
          colorScheme = colorScheme, reducedMotion = reducedMotion,
          forcedColors = forcedColors \<rparr>)"

text \<open>
  The timezone table as the specification words it, for comparison with the table of
  the source: half-open intervals closed on the left for the three Asian zones.
\<close>

definition spec_timezoneId :: "int \<Rightarrow> string" where
  "spec_timezoneId off =
    (if -600 \<le> off \<and> off < -480 then ''Asia/Shanghai''
     else if off \<le> -540 then ''Asia/Tokyo''
     else if -480 \<le> off \<and> off < -420 then ''Asia/Bangkok''
     else if -60 < off \<and> off \<le> 0 then ''Europe/London''
     else if 0 < off \<and> off \<le> 60 then ''Europe/Berlin''
     else if 240 < off \<and> off \<le> 300 then ''America/New_York''
     else ''America/New_York'')"

definition hostAt :: "int \<Rightarrow> host" where
  "hostAt off = \<lparr> envLANG = None, timezoneOffset = off, hours = 12, platform = ''linux'' \<rparr>"

section \<open>Data model of the search controller\<close>

text \<open>
  The interfaces \<open>SavedState\<close>, \<open>SearchOptions\<close>, \<open>SearchResult\<close> and
  \<open>SearchResponse\<close>. An optional field is an \<open>option\<close>; \<open>debug\<close> is only ever
  tested for truthiness and is a \<open>bool\<close>.
\<close>

record SavedState =
  fingerprint :: "FingerprintConfig option"
  googleDomain :: "string option"

text \<open>
  What \<open>JSON.parse\<close> can return for the contents of the sidecar: the value \<open>null\<close>, a
  primitive (a number, a string, a boolean), or an object, which is read as a
  \<open>SavedState\<close> (an array is an object with neither field).
\<close>

datatype jsonValue = JsonNull | JsonPrimitive | JsonObject SavedState

record SearchOptions =
  limit :: "int option"
  timeout :: "int option"
  stateFile :: "string option"
  noSaveState :: "bool option"
  locale_opt :: "string option"
  debug :: bool

record SearchResult =
  title :: string
  link :: string
  snippet :: string

record SearchResponse =
  query :: string
  results :: "SearchResult list"

text \<open>
  The part of playwright's \<open>BrowserContextOptions\<close> that the controller sets: the key
  of the device descriptor spread into the options, the five identity fields and the
  forced desktop flags.
\<close>

record BrowserContextOptions =
  ctxDevice :: string
  ctxLocale :: string
  ctxTimezoneId :: string
  ctxColorScheme :: colorScheme
  ctxReducedMotion :: reducedMotion
  ctxForcedColors :: forcedColors
  isMobile :: bool
  hasTouch :: bool

subsection \<open>JavaScript string and array primitives\<close>

text \<open>\<open>s.includes(pat)\<close>: \<open>pat\<close> occurs in \<open>s\<close> as a contiguous substring.\<close>

fun js_includes :: "string \<Rightarrow> string \<Rightarrow> bool" where
  "js_includes [] pat = (pat = [])"
| "js_includes (c # cs) pat = (prefix pat (c # cs) \<or> js_includes cs pat)"

text \<open>\<open>s.startsWith(pat)\<close>.\<close>

definition startsWith :: "string \<Rightarrow> string \<Rightarrow> bool" where
  "startsWith s pat = prefix pat s"

text \<open>\<open>s.replace(pat, rep)\<close> with a string pattern: the first occurrence only.\<close>

fun replaceFirst :: "string \<Rightarrow> string \<Rightarrow> string \<Rightarrow> string" where
  "replaceFirst pat rep [] = (if pat = [] then rep else [])"
| "replaceFirst pat rep (c # cs) =
     (if prefix pat (c # cs) then rep @ drop (length pat) (c # cs)
      else c # replaceFirst pat rep cs)"

text \<open>
  \<open>xs.slice(0, n)\<close>: a negative end counts from the end of the array, and the result
  is clamped to the array.
\<close>

definition slice0 :: "'a list \<Rightarrow> int \<Rightarrow> 'a list" where
  "slice0 xs n = (if n < 0 then take (nat (int (length xs) + n)) xs else take (nat n) xs)"


subsection \<open>The external collaborators\<close>

text \<open>
  Every call the controller makes on the browser automation library or on the file
  system is a call site. One \<open>session\<close> scripts what the outside world does during
  one invocation of \<open>performSearch\<close>: which calls throw (and with which message), what
  URLs the page reports, which selectors match, which elements the page holds, and
  what the pseudo-random choices are.
\<close>

datatype phase = InBody | InHandler

datatype site =
    ChromiumLaunch | NewContext | ContextAddInitScript | NewPage | PageAddInitScript
  | Goto | WaitForNavigation nat | PageClose | ContextClose
  | TempLaunch | TempNewContext | TempNewPage | TempClose | TempCloseInCatch
  | BrowserCloseForRetry
  | QuerySelector string | Click | KeyboardType | WaitForTimeout nat | KeyboardPress
  | WaitForLoadState nat | WaitForSelector nat string | EvalAll string
  | MkdirSync phase | StorageState phase | WriteFileSync phase | BrowserClose phase

text \<open>
  What the page-side callbacks read from the DOM. A \<open>node\<close> is an element with its
  text, its \<open>href\<close> attribute and property, whether it is an \<open>HTMLAnchorElement\<close>,
  and the texts of its chain of parent elements (nearest first). An \<open>element\<close> is a
  result container, queried with \<open>querySelector\<close>.
\<close>

record node =
  textContent :: string
  hrefAttribute :: "string option"
  isHTMLAnchorElement :: bool
  href :: string
  parentTexts :: "string list"

record element =
  querySelector :: "string \<Rightarrow> node option"

record session =
  throws :: "site \<Rightarrow> string option"
  randomDevice :: nat
  randomDomain :: nat
  responseUrl :: "string option"
  urlAfterGoto :: string
  urlAfterSearch :: string
  urlAfterWait :: string
  hasElement :: "string \<Rightarrow> bool"
  elementsOf :: "string \<Rightarrow> element list"
  anchorsOf :: "node list"
  stateDirExists :: "phase \<Rightarrow> bool"

text \<open>The observable trace of a run: the calls made, in order.\<close>

datatype event =
    Invoke bool
  | Op site
  | GotoUrl string
  | NewContextWith BrowserContextOptions "string option"
  | ExistsSync string
  | ReadFileSync string
  | Warn string
  | MkdirFor string
  | StorageStateTo string
  | WriteFileTo string SavedState

subsection \<open>Computations: a trace and either an exception or a value\<close>

text \<open>
  An awaited call either throws (\<open>Inl\<close> of the message) or yields a value; either way
  it leaves its events in the trace.
\<close>

type_synonym 'a comp = "event list \<times> (string + 'a)"

definition ret :: "'a \<Rightarrow> 'a comp" where
  "ret a = ([], Inr a)"

definition throw :: "string \<Rightarrow> 'a comp" where
  "throw e = ([], Inl e)"

definition emit :: "event \<Rightarrow> unit comp" where
  "emit ev = ([ev], Inr ())"

definition andThen :: "'a comp \<Rightarrow> ('a \<Rightarrow> 'b comp) \<Rightarrow> 'b comp" where
  "andThen m f =
     (case m of
        (t, Inl e) \<Rightarrow> (t, Inl e)
      | (t, Inr a) \<Rightarrow> (case f a of (t', r) \<Rightarrow> (t @ t', r)))"

definition tryCatch :: "'a comp \<Rightarrow> (string \<Rightarrow> 'a comp) \<Rightarrow> 'a comp" where
  "tryCatch m h =
     (case m of
        (t, Inl e) \<Rightarrow> (case h e of (t', r) \<Rightarrow> (t @ t', r))
      | (t, Inr a) \<Rightarrow> (t, Inr a))"


definition call :: "session \<Rightarrow> site \<Rightarrow> event \<Rightarrow> unit comp" where
  "call s st ev = ([ev], case throws s st of None \<Rightarrow> Inr () | Some e \<Rightarrow> Inl e)"

definition browserOp :: "session \<Rightarrow> site \<Rightarrow> unit comp" where
  "browserOp s st = call s st (Op st)"

section \<open>The search controller: \<open>performSearch\<close>\<close>

text \<open>
  What \<open>performSearch\<close> closes over inside \<open>googleSearch\<close>: the query, the options
  with their defaults applied, the two file paths, whether the caller supplied a
  browser, the storage snapshot to replay, the host signals, and playwright's device
  registry (which names have a descriptor).
\<close>

record closure =
  cQuery :: string
  cLimit :: int
  cStateFile :: string
  cFingerprintFile :: string
  cNoSaveState :: bool
  cLocale :: string
  cDebug :: bool
  existingBrowser :: bool
  storageState :: "string option"
  cHost :: host
  devices :: "string \<Rightarrow> bool"

definition deviceList :: "string list" where
  "deviceList = [''Desktop Chrome'', ''Desktop Edge'', ''Desktop Firefox'', ''Desktop Safari'']"

definition googleDomains :: "string list" where
  "googleDomains = [''https://www.google.com'', ''https://www.google.co.uk'',
                    ''https://www.google.ca'', ''https://www.google.com.au'']"

definition captchaPatterns :: "string list" where
  "captchaPatterns = [''google.com/sorry/index'', ''google.com/sorry'', ''recaptcha'',
                      ''captcha'', ''unusual traffic'']"

definition searchInputSelectors :: "string list" where
  "searchInputSelectors = [''textarea[name='q']'', ''input[name='q']'', ''textarea[title='Search']'',
     ''input[title='Search']'', ''textarea[aria-label='Search']'',
     ''input[aria-label='Search']'',
     ''textarea'']"

definition searchResultSelectors :: "string list" where
  "searchResultSelectors = [''#search'', ''#rso'', ''.g'', ''[data-sokoban-container]'',
     ''div[role='main']'']"

text \<open>The selector triples of the extractor: container, title, snippet.\<close>

definition resultSelectors :: "(string \<times> string \<times> string) list" where
  "resultSelectors =
     [(''#search .g'', ''h3'', ''.VwiC3b''),
      (''#rso .g'', ''h3'', ''.VwiC3b''),
      (''.g'', ''h3'', ''.VwiC3b''),
      (''[data-sokoban-container] > div'', ''h3'', ''[data-sncf='1']''),
      (''div[role='main'] .g'', ''h3'', ''[data-sncf='1']'')]"

text \<open>
  \<open>getDeviceConfig\<close>: the persisted device when it is named and known to playwright,
  else a pseudo-random entry of \<open>deviceList\<close>
  (\<open>Math.floor(Math.random() * deviceList.length)\<close> is an index below the length).
\<close>

definition getDeviceConfig :: "closure \<Rightarrow> session \<Rightarrow> SavedState \<Rightarrow> string" where
  "getDeviceConfig c s savedState =
     (let randomPick = deviceList ! (randomDevice s mod length deviceList) in
      case fingerprint savedState of
        None \<Rightarrow> randomPick
      | Some fp \<Rightarrow>
          (if deviceName fp \<noteq> [] \<and> devices c (deviceName fp) then deviceName fp
           else randomPick))"

text \<open>
  Lines 256 to 312: the context options, from the persisted fingerprint when there is
  one, else from the host machine, whose fingerprint is staged in \<open>savedState\<close>.
\<close>

definition buildContextOptions ::
  "closure \<Rightarrow> session \<Rightarrow> SavedState \<Rightarrow> BrowserContextOptions \<times> SavedState" where
  "buildContextOptions c s savedState =
     (let device = getDeviceConfig c s savedState in
      case fingerprint savedState of
        Some fp \<Rightarrow>
          (\<lparr> ctxDevice = device, ctxLocale = locale_str fp, ctxTimezoneId = timezoneId fp,
             ctxColorScheme = colorScheme fp, ctxReducedMotion = reducedMotion fp,
             ctxForcedColors = forcedColors fp, isMobile = False, hasTouch = False \<rparr>,
           savedState)
      | None \<Rightarrow>
          (let hostConfig = getHostMachineConfig (Some (cLocale c)) (cHost c);
               device' = (if deviceName hostConfig \<noteq> device then deviceName hostConfig
                          else device)
           in (\<lparr> ctxDevice = device', ctxLocale = locale_str hostConfig,
                 ctxTimezoneId = timezoneId hostConfig,
                 ctxColorScheme = colorScheme hostConfig,
                 ctxReducedMotion = reducedMotion hostConfig,
                 ctxForcedColors = forcedColors hostConfig,
                 isMobile = False, hasTouch = False \<rparr>,
               savedState\<lparr> fingerprint := Some hostConfig \<rparr>)))"

text \<open>The first statement of the guarded block: the persisted domain, or a random one.\<close>

definition selectDomain :: "session \<Rightarrow> SavedState \<Rightarrow> string \<times> SavedState" where
  "selectDomain s savedState =
     (let pick = googleDomains ! (randomDomain s mod length googleDomains) in
      case googleDomain savedState of
        None \<Rightarrow> (pick, savedState\<lparr> googleDomain := Some pick \<rparr>)
      | Some d \<Rightarrow>
          (if d \<noteq> [] then (d, savedState)
           else (pick, savedState\<lparr> googleDomain := Some pick \<rparr>)))"

subsection \<open>CAPTCHA detection and recovery\<close>

definition isCaptchaUrl :: "string \<Rightarrow> bool" where
  "isCaptchaUrl url = list_ex (\<lambda>pattern. js_includes url pattern) captchaPatterns"

text \<open>
  A step of the guarded block either goes on, or leaves the block through
  \<open>return performSearch(false)\<close>. That promise is returned, not awaited, so the
  \<open>catch\<close> of the block does not apply to it.
\<close>

datatype 'a flow = Continue 'a | Restart

definition thenFlow :: "'a flow comp \<Rightarrow> ('a \<Rightarrow> 'b flow comp) \<Rightarrow> 'b flow comp" where
  "thenFlow m f = andThen m (\<lambda>x. case x of Restart \<Rightarrow> ret Restart | Continue a \<Rightarrow> f a)"

text \<open>
  The headless recovery, the same statements at all three checkpoints: close the page
  and the context; with a supplied browser launch a temporary visible browser, open a
  context and a page in it and close it again (closing it once more and rethrowing if
  any of that throws); with an own browser close it.
\<close>

definition closeForRetry :: "closure \<Rightarrow> session \<Rightarrow> unit comp" where
  "closeForRetry c s =
     andThen (browserOp s PageClose) (\<lambda>_.
     andThen (browserOp s ContextClose) (\<lambda>_.
       if existingBrowser c then
         andThen (browserOp s TempLaunch) (\<lambda>_.
           tryCatch
             (andThen (browserOp s TempNewContext) (\<lambda>_.
              andThen (browserOp s TempNewPage) (\<lambda>_.
              browserOp s TempClose)))
             (\<lambda>error. andThen (browserOp s TempCloseInCatch) (\<lambda>_. throw error)))
       else browserOp s BrowserCloseForRetry))"

definition captchaCheckpoint ::
  "closure \<Rightarrow> session \<Rightarrow> bool \<Rightarrow> bool \<Rightarrow> unit comp \<Rightarrow> unit flow comp" where
  "captchaCheckpoint c s headless blocked waitForUser =
     (if blocked then
        (if headless then andThen (closeForRetry c s) (\<lambda>_. ret Restart)
         else andThen waitForUser (\<lambda>_. ret (Continue ())))
      else ret (Continue ()))"

subsection \<open>Navigation, query submission, waiting for results\<close>

definition navigate :: "closure \<Rightarrow> session \<Rightarrow> bool \<Rightarrow> string \<Rightarrow> unit flow comp" where
  "navigate c s headless selectedDomain =
     andThen (call s Goto (GotoUrl selectedDomain)) (\<lambda>_.
       let currentUrl = urlAfterGoto s;
           isBlockedPage =
             list_ex (\<lambda>pattern. js_includes currentUrl pattern \<or>
                        (case responseUrl s of None \<Rightarrow> False
                         | Some u \<Rightarrow> js_includes u pattern)) captchaPatterns
       in captchaCheckpoint c s headless isBlockedPage (browserOp s (WaitForNavigation 1)))"

text \<open>The loop over \<open>searchInputSelectors\<close>: the first selector with a match.\<close>

fun findSearchInput :: "session \<Rightarrow> string list \<Rightarrow> bool comp" where
  "findSearchInput s [] = ret False"
| "findSearchInput s (selector # selectors) =
     andThen (browserOp s (QuerySelector selector)) (\<lambda>_.
       if hasElement s selector then ret True else findSearchInput s selectors)"

definition submitQuery :: "closure \<Rightarrow> session \<Rightarrow> bool \<Rightarrow> unit flow comp" where
  "submitQuery c s headless =
     andThen (findSearchInput s searchInputSelectors) (\<lambda>searchInput.
       if \<not> searchInput then throw ''Could not find search box''
       else
         andThen (browserOp s Click) (\<lambda>_.
         andThen (browserOp s KeyboardType) (\<lambda>_.
         andThen (browserOp s (WaitForTimeout 1)) (\<lambda>_.
         andThen (browserOp s KeyboardPress) (\<lambda>_.
         andThen (browserOp s (WaitForLoadState 1)) (\<lambda>_.
           captchaCheckpoint c s headless (isCaptchaUrl (urlAfterSearch s))
             (andThen (browserOp s (WaitForNavigation 2)) (\<lambda>_.
              browserOp s (WaitForLoadState 2)))))))))"

text \<open>
  The loop over \<open>searchResultSelectors\<close>: a \<open>waitForSelector\<close> that throws (times
  out) is swallowed and the next selector is tried. The loop runs a second time after
  a visible verification, hence the round number.
\<close>

fun waitForResultSelector :: "session \<Rightarrow> nat \<Rightarrow> string list \<Rightarrow> bool comp" where
  "waitForResultSelector s round [] = ret False"
| "waitForResultSelector s round (selector # selectors) =
     andThen
       (tryCatch
          (andThen (browserOp s (WaitForSelector round selector)) (\<lambda>_. ret True))
          (\<lambda>e. ret False))
       (\<lambda>resultsFound.
          if resultsFound then ret True else waitForResultSelector s round selectors)"

definition waitForResults :: "closure \<Rightarrow> session \<Rightarrow> bool \<Rightarrow> unit flow comp" where
  "waitForResults c s headless =
     andThen (waitForResultSelector s 1 searchResultSelectors) (\<lambda>resultsFound.
       if \<not> resultsFound then
         (if isCaptchaUrl (urlAfterWait s) then
            (if headless then andThen (closeForRetry c s) (\<lambda>_. ret Restart)
             else
               andThen (browserOp s (WaitForNavigation 3)) (\<lambda>_.
               andThen (waitForResultSelector s 2 searchResultSelectors) (\<lambda>resultsFound.
                 if \<not> resultsFound then throw ''Could not find search result elements''
                 else ret (Continue ()))))
          else throw ''Could not find search result elements'')
       else ret (Continue ()))"

subsection \<open>Result extraction\<close>

text \<open>The callback of the structured strategies, on one container element.\<close>

definition extractItem :: "string \<Rightarrow> string \<Rightarrow> element \<Rightarrow> SearchResult" where
  "extractItem titleSelector snippetSelector el =
     (let titleElement = querySelector el titleSelector;
          linkElement = querySelector el ''a'';
          snippetElement = querySelector el snippetSelector
      in \<lparr> title = (case titleElement of None \<Rightarrow> [] | Some t \<Rightarrow> textContent t),
           link = (case linkElement of None \<Rightarrow> []
                   | Some a \<Rightarrow> (if isHTMLAnchorElement a then href a else [])),
           snippet = (case snippetElement of None \<Rightarrow> [] | Some n \<Rightarrow> textContent n) \<rparr>)"

text \<open>\<open>item.title && item.link\<close>: both strings are non-empty.\<close>

definition nonEmptyItem :: "SearchResult \<Rightarrow> bool" where
  "nonEmptyItem item = (title item \<noteq> [] \<and> link item \<noteq> [])"

definition evalStructured ::
  "element list \<Rightarrow> int \<Rightarrow> string \<Rightarrow> string \<Rightarrow> SearchResult list" where
  "evalStructured elements maxResults titleSelector snippetSelector =
     filter nonEmptyItem
       (map (extractItem titleSelector snippetSelector) (slice0 elements maxResults))"

text \<open>
  The loop over \<open>resultSelectors\<close>: a \<open>$$eval\<close> that throws is swallowed; the first
  strategy with at least one result wins; \<open>results\<close> is still empty when none does.
\<close>

fun extractStructured ::
  "session \<Rightarrow> int \<Rightarrow> (string \<times> string \<times> string) list \<Rightarrow> SearchResult list comp" where
  "extractStructured s lim [] = ret []"
| "extractStructured s lim ((container, titleSel, snippetSel) # selectors) =
     andThen
       (tryCatch
          (andThen (browserOp s (EvalAll container)) (\<lambda>_.
             ret (evalStructured (elementsOf s container) lim titleSel snippetSel)))
          (\<lambda>e. ret []))
       (\<lambda>results.
          if length results > 0 then ret results else extractStructured s lim selectors)"

text \<open>The snippet of the fallback: the longest of up to three parent texts that differs
  from the title, an earlier parent winning a tie.\<close>

definition fallbackSnippet :: "string \<Rightarrow> string list \<Rightarrow> string" where
  "fallbackSnippet ttl parents =
     foldl (\<lambda>snip text. if length text > length snip \<and> text \<noteq> ttl then text else snip)
       [] (take 3 parents)"

definition fallbackKeep :: "node \<Rightarrow> bool" where
  "fallbackKeep el =
     (let h = (case hrefAttribute el of None \<Rightarrow> [] | Some a \<Rightarrow> a) in
      startsWith h ''http'' \<and> \<not> js_includes h ''google.com/'' \<and>
      \<not> js_includes h ''accounts.google'' \<and> \<not> js_includes h ''support.google'')"

definition fallbackItem :: "node \<Rightarrow> SearchResult" where
  "fallbackItem el =
     (let ttl = textContent el;
          lnk = (if isHTMLAnchorElement el then href el
                 else (case hrefAttribute el of None \<Rightarrow> [] | Some a \<Rightarrow> a))
      in \<lparr> title = ttl, link = lnk, snippet = fallbackSnippet ttl (parentTexts el) \<rparr>)"

definition evalFallback :: "node list \<Rightarrow> int \<Rightarrow> SearchResult list" where
  "evalFallback elements maxResults =
     filter nonEmptyItem (map fallbackItem (slice0 (filter fallbackKeep elements) maxResults))"

definition extractResults :: "closure \<Rightarrow> session \<Rightarrow> SearchResult list comp" where
  "extractResults c s =
     andThen (extractStructured s (cLimit c) resultSelectors) (\<lambda>results.
       if length results = 0 then
         andThen (browserOp s (EvalAll ''a[href^='http']'')) (\<lambda>_.
           ret (evalFallback (anchorsOf s) (cLimit c)))
       else ret results)"

subsection \<open>Persisting state, closing the browser\<close>

text \<open>
  The state save, the same statements in the guarded block and in its handler: nothing
  when \<open>noSaveState\<close>; else the directory is made if absent, the storage snapshot is
  written, then the identity sidecar. A failed sidecar write is swallowed by the inner
  \<open>try\<close>, any other failure by the outer one.
\<close>

definition saveState :: "closure \<Rightarrow> session \<Rightarrow> phase \<Rightarrow> SavedState \<Rightarrow> unit comp" where
  "saveState c s ph savedState =
     tryCatch
       (if \<not> cNoSaveState c then
          andThen (if \<not> stateDirExists s ph
                   then call s (MkdirSync ph) (MkdirFor (cStateFile c)) else ret ()) (\<lambda>_.
          andThen (call s (StorageState ph) (StorageStateTo (cStateFile c))) (\<lambda>_.
            tryCatch
              (call s (WriteFileSync ph) (WriteFileTo (cFingerprintFile c) savedState))
              (\<lambda>fingerprintError. ret ())))
        else ret ())
       (\<lambda>error. ret ())"

text \<open>Only a browser the controller launched itself, and not in debug mode, is closed.\<close>

definition closeDecision :: "closure \<Rightarrow> session \<Rightarrow> phase \<Rightarrow> unit comp" where
  "closeDecision c s ph =
     (if \<not> existingBrowser c \<and> \<not> cDebug c then browserOp s (BrowserClose ph) else ret ())"

subsection \<open>The guarded block, its handler, one invocation\<close>

definition searchBody ::
  "closure \<Rightarrow> session \<Rightarrow> bool \<Rightarrow> string \<Rightarrow> SavedState \<Rightarrow> SearchResponse flow comp" where
  "searchBody c s headless selectedDomain savedState =
     thenFlow (navigate c s headless selectedDomain) (\<lambda>_.
     thenFlow (submitQuery c s headless) (\<lambda>_.
     thenFlow (waitForResults c s headless) (\<lambda>_.
       andThen (browserOp s (WaitForTimeout 2)) (\<lambda>_.
       andThen (extractResults c s) (\<lambda>results.
       andThen (saveState c s InBody savedState) (\<lambda>_.
       andThen (closeDecision c s InBody) (\<lambda>_.
         ret (Continue \<lparr> query = cQuery c, results = results \<rparr>))))))))"

definition failureResult :: "string \<Rightarrow> SearchResult" where
  "failureResult message =
     \<lparr> title = ''Search failed'', link = [],
       snippet = ''Unable to complete search, error message: '' @ message \<rparr>"

definition handler :: "closure \<Rightarrow> session \<Rightarrow> SavedState \<Rightarrow> string \<Rightarrow> SearchResponse comp" where
  "handler c s savedState error =
     andThen (saveState c s InHandler savedState) (\<lambda>_.
     andThen (closeDecision c s InHandler) (\<lambda>_.
       ret \<lparr> query = cQuery c, results = [failureResult error] \<rparr>))"

text \<open>
  The body of \<open>performSearch\<close> up to its \<open>return\<close>: a response, or the decision
  to run again in visible mode with the state as mutated so far. Everything before
  \<open>searchBody\<close> is outside the \<open>try\<close>. After the launch, a \<open>savedState\<close> that is
  \<open>null\<close> makes \<open>getDeviceConfig\<close> throw on reading \<open>savedState.fingerprint\<close>
  (line 184); one that is a primitive has no fingerprint, so the host branch is taken,
  where the assignment \<open>savedState.fingerprint = hostConfig\<close> (line 298) throws, the
  module being in strict mode. Both are TypeErrors raised before the context is
  created.
\<close>

datatype outcome = Done SearchResponse | Retry SavedState

definition invocation ::
  "closure \<Rightarrow> session \<Rightarrow> bool \<Rightarrow> jsonValue \<Rightarrow> outcome comp" where
  "invocation c s headless saved =
     andThen (if existingBrowser c then ret () else browserOp s ChromiumLaunch) (\<lambda>_.
       case saved of
         JsonNull \<Rightarrow> throw ''TypeError: Cannot read properties of null''
       | JsonPrimitive \<Rightarrow> throw ''TypeError: Cannot create property on a primitive''
       | JsonObject savedState0 \<Rightarrow>
           (case buildContextOptions c s savedState0 of (contextOptions, savedState1) \<Rightarrow>
              andThen (call s NewContext (NewContextWith contextOptions (storageState c))) (\<lambda>_.
              andThen (browserOp s ContextAddInitScript) (\<lambda>_.
              andThen (browserOp s NewPage) (\<lambda>_.
              andThen (browserOp s PageAddInitScript) (\<lambda>_.
                case selectDomain s savedState1 of (selectedDomain, savedState2) \<Rightarrow>
                  (case searchBody c s headless selectedDomain savedState2 of
                     (t, Inr (Continue response)) \<Rightarrow> (t, Inr (Done response))
                   | (t, Inr Restart) \<Rightarrow> (t, Inr (Retry savedState2))
                   | (t, Inl error) \<Rightarrow>
                       andThen (t, Inr ()) (\<lambda>_.
                       andThen (handler c s savedState2 error) (\<lambda>response.
                         ret (Done response))))))))))"

text \<open>One invocation, marked in the trace by its entry with the \<open>headless\<close> flag.\<close>

definition attempt :: "closure \<Rightarrow> session \<Rightarrow> bool \<Rightarrow> jsonValue \<Rightarrow> outcome comp" where
  "attempt c s headless saved =
     andThen (emit (Invoke headless)) (\<lambda>_. invocation c s headless saved)"

text \<open>
  \<open>performSearch\<close>: invocation number \<open>n\<close> plays against the \<open>n\<close>-th session of the
  world; \<open>return performSearch(false)\<close> is the recursive call. The recursion is made
  only from a headless invocation and is always visible, which is its termination.
\<close>

function performSearch ::
  "closure \<Rightarrow> (nat \<Rightarrow> session) \<Rightarrow> nat \<Rightarrow> bool \<Rightarrow> jsonValue \<Rightarrow> SearchResponse comp" where
  "performSearch c w n headless saved =
     (case attempt c (w n) headless saved of
        (t, Inl error) \<Rightarrow> (t, Inl error)
      | (t, Inr (Done response)) \<Rightarrow> (t, Inr response)
      | (t, Inr (Retry savedState)) \<Rightarrow>
          (case performSearch c w (Suc n) False (JsonObject savedState) of
             (t', r) \<Rightarrow> (t @ t', r)))"
  by pat_completeness auto

section \<open>\<open>googleSearch\<close> and \<open>multiGoogleSearch\<close>\<close>

text \<open>
  The environment of a run: the host signals, the file system as \<open>fs.existsSync\<close> and
  \<open>fs.readFileSync\<close> see it (\<open>None\<close>: the read throws), \<open>JSON.parse\<close> on the sidecar's
  contents (\<open>None\<close>: a syntax error; else the value parsed), playwright's
  device registry, \<open>getStateFilePath\<close> of \<open>utils/storageConfig\<close> (\<open>None\<close>: making the
  storage directory throws), and the session of each invocation of \<open>performSearch\<close>.
\<close>

record env =
  hostSignals :: host
  existsSync :: "string \<Rightarrow> bool"
  readFileSync :: "string \<Rightarrow> string option"
  jsonParse :: "string \<Rightarrow> jsonValue option"
  playwrightDevices :: "string \<Rightarrow> bool"
  getStateFilePath :: "string \<Rightarrow> string option"
  sessions :: "nat \<Rightarrow> session"

definition emptyState :: SavedState where
  "emptyState = \<lparr> fingerprint = None, googleDomain = None \<rparr>"

text \<open>
  Lines 127 to 154: the snapshot is replayed when its file exists, and only then is the
  sidecar looked at; a sidecar that cannot be read or parsed leaves \<open>savedState = {}\<close>
  and a warning in the log.
\<close>

definition loadState ::
  "env \<Rightarrow> string \<Rightarrow> string \<Rightarrow> (string option \<times> jsonValue) comp" where
  "loadState e file fingerprintFile =
     andThen (emit (ExistsSync file)) (\<lambda>_.
       if existsSync e file then
         andThen (emit (ExistsSync fingerprintFile)) (\<lambda>_.
           if existsSync e fingerprintFile then
             tryCatch
               (andThen (emit (ReadFileSync fingerprintFile)) (\<lambda>_.
                  case readFileSync e fingerprintFile of
                    None \<Rightarrow> throw ''Error: cannot read file''
                  | Some fingerprintData \<Rightarrow>
                      (case jsonParse e fingerprintData of
                         None \<Rightarrow> throw ''SyntaxError''
                       | Some savedState \<Rightarrow> ret (Some file, savedState))))
               (\<lambda>err.
                  andThen (emit (Warn ''Cannot load fingerprint file, will create new fingerprint''))
                    (\<lambda>_. ret (Some file, JsonObject emptyState)))
           else ret (Some file, JsonObject emptyState))
       else ret (None, JsonObject emptyState))"

definition resolveStateFile :: "env \<Rightarrow> SearchOptions \<Rightarrow> string comp" where
  "resolveStateFile e options =
     (case stateFile options of
        Some f \<Rightarrow> ret f
      | None \<Rightarrow>
          (case getStateFilePath e ''browser-state.json'' of
             None \<Rightarrow> throw ''Error: cannot create storage directory''
           | Some f \<Rightarrow> ret f))"

definition makeClosure ::
  "string \<Rightarrow> SearchOptions \<Rightarrow> bool \<Rightarrow> env \<Rightarrow> string \<Rightarrow> string option \<Rightarrow> closure" where
  "makeClosure q options existing e file storage =
     \<lparr> cQuery = q,
       cLimit = (case limit options of None \<Rightarrow> 10 | Some l \<Rightarrow> l),
       cStateFile = file,
       cFingerprintFile = replaceFirst ''.json'' ''-fingerprint.json'' file,
       cNoSaveState = (case noSaveState options of None \<Rightarrow> False | Some b \<Rightarrow> b),
       cLocale = (case locale_opt options of None \<Rightarrow> ''en-US'' | Some l \<Rightarrow> l),
       cDebug = debug options,
       existingBrowser = existing,
       storageState = storage,
       cHost = hostSignals e,
       devices = playwrightDevices e \<rparr>"

definition googleSearch :: "string \<Rightarrow> SearchOptions \<Rightarrow> bool \<Rightarrow> env \<Rightarrow> SearchResponse comp" where
  "googleSearch q options existing e =
     andThen (resolveStateFile e options) (\<lambda>file.
       let useHeadless = \<not> debug options;
           fingerprintFile = replaceFirst ''.json'' ''-fingerprint.json'' file
       in andThen (loadState e file fingerprintFile) (\<lambda>(storage, savedState).
            performSearch (makeClosure q options existing e file storage)
              (sessions e) 0 useHeadless savedState))"

subsection \<open>Several queries over one shared browser\<close>






section \<open>Predicates on runs\<close>

text \<open>Every event of the trace of a computation satisfies \<open>P\<close>.\<close>

definition traceAll :: "(event \<Rightarrow> bool) \<Rightarrow> 'a comp \<Rightarrow> bool" where
  "traceAll P m = list_all P (fst m)"

text \<open>If the computation yields a value (does not throw), the value satisfies \<open>Q\<close>.\<close>

definition returns :: "('a \<Rightarrow> bool) \<Rightarrow> 'a comp \<Rightarrow> bool" where
  "returns Q m = (case snd m of Inl e \<Rightarrow> True | Inr a \<Rightarrow> Q a)"

text \<open>The events that write the storage snapshot or the identity sidecar.\<close>

definition isStateWrite :: "event \<Rightarrow> bool" where
  "isStateWrite ev =
     (case ev of StorageStateTo p \<Rightarrow> True | WriteFileTo p st \<Rightarrow> True | _ \<Rightarrow> False)"

text \<open>Results as the extractor leaves them: title and link non-empty, and no more
  of them than a non-negative limit.\<close>

definition goodResults :: "int \<Rightarrow> SearchResult list \<Rightarrow> bool" where
  "goodResults lim rs = (list_all nonEmptyItem rs \<and> (0 \<le> lim \<longrightarrow> int (length rs) \<le> lim))"

text \<open>The diagnostic response of the failure path: a single entry titled
  \<open>Search failed\<close>, with an empty link.\<close>

definition isDiagnostic :: "SearchResult list \<Rightarrow> bool" where
  "isDiagnostic rs =
     (case rs of
        [x] \<Rightarrow> title x = ''Search failed'' \<and> link x = [] \<and>
               prefix ''Unable to complete search, error message: '' (snippet x)
      | _ \<Rightarrow> False)"

text \<open>The shape of a response to query \<open>q\<close> under limit \<open>lim\<close>.\<close>

definition responseShape :: "string \<Rightarrow> int \<Rightarrow> SearchResponse \<Rightarrow> bool" where
  "responseShape q lim r =
     (query r = q \<and> (goodResults lim (results r) \<or> isDiagnostic (results r)))"

definition outcomeShape :: "string \<Rightarrow> int \<Rightarrow> outcome \<Rightarrow> bool" where
  "outcomeShape q lim out =
     (case out of Done r \<Rightarrow> responseShape q lim r | Retry st \<Rightarrow> True)"

text \<open>The limit in force: \<open>options.limit\<close>, or 10 when it is not given.\<close>

definition effectiveLimit :: "SearchOptions \<Rightarrow> int" where
  "effectiveLimit options = (case limit options of None \<Rightarrow> 10 | Some l \<Rightarrow> l)"

text \<open>The entries of \<open>performSearch\<close> in a trace, and their number.\<close>

definition isInvoke :: "event \<Rightarrow> bool" where
  "isInvoke ev = (case ev of Invoke h \<Rightarrow> True | _ \<Rightarrow> False)"

definition invocations :: "event list \<Rightarrow> nat" where
  "invocations t = length (filter isInvoke t)"

text \<open>The computation yields a value: no exception reaches the caller.\<close>

definition succeeds :: "'a comp \<Rightarrow> bool" where
  "succeeds m = (case snd m of Inl e \<Rightarrow> False | Inr a \<Rightarrow> True)"

text \<open>
  The calls of one invocation that lie outside the guarded block do not throw: the
  launch (when the controller launches), the creation of the context and of the page
  with their init scripts, and the closing of an own browser in the handler.
\<close>

definition setupSucceeds :: "bool \<Rightarrow> bool \<Rightarrow> session \<Rightarrow> bool" where
  "setupSucceeds existing dbg s =
     ((existing \<or> throws s ChromiumLaunch = None) \<and>
      throws s NewContext = None \<and> throws s ContextAddInitScript = None \<and>
      throws s NewPage = None \<and> throws s PageAddInitScript = None \<and>
      (existing \<or> dbg \<or> throws s (BrowserClose InHandler) = None))"

text \<open>The domain visited and the state staged for persistence by an invocation that
  starts from \<open>savedState\<close>.\<close>

definition stagedDomain :: "closure \<Rightarrow> session \<Rightarrow> SavedState \<Rightarrow> string" where
  "stagedDomain c s savedState = fst (selectDomain s (snd (buildContextOptions c s savedState)))"

definition stagedState :: "closure \<Rightarrow> session \<Rightarrow> SavedState \<Rightarrow> SavedState" where
  "stagedState c s savedState = snd (selectDomain s (snd (buildContextOptions c s savedState)))"

text \<open>The sidecar path derived from a snapshot path, and the locale in force.\<close>

definition fingerprintFileOf :: "string \<Rightarrow> string" where
  "fingerprintFileOf file = replaceFirst ''.json'' ''-fingerprint.json'' file"

definition effectiveLocale :: "SearchOptions \<Rightarrow> string" where
  "effectiveLocale options = (case locale_opt options of None \<Rightarrow> ''en-US'' | Some l \<Rightarrow> l)"

text \<open>The file at a path can be read, and \<open>JSON.parse\<close> throws on its contents.\<close>

definition unparsable :: "env \<Rightarrow> string \<Rightarrow> bool" where
  "unparsable e p = (case readFileSync e p of None \<Rightarrow> False | Some d \<Rightarrow> jsonParse e d = None)"

text \<open>The warning of the load phase (the only entry of the log that the trace keeps).\<close>

definition isLoadWarning :: "event \<Rightarrow> bool" where
  "isLoadWarning ev =
     (case ev of
        Warn m \<Rightarrow> m = ''Cannot load fingerprint file, will create new fingerprint''
      | _ \<Rightarrow> False)"

definition isRead :: "event \<Rightarrow> bool" where
  "isRead ev = (case ev of ReadFileSync p \<Rightarrow> True | _ \<Rightarrow> False)"

text \<open>No context is created from a storage snapshot.\<close>

definition noSnapshot :: "event \<Rightarrow> bool" where
  "noSnapshot ev = (case ev of NewContextWith opts storage \<Rightarrow> storage = None | _ \<Rightarrow> True)"

text \<open>
  The event presents the identity \<open>fp\<close>: a context is created with its locale,
  timezone and appearance fields, and a sidecar is written with it as fingerprint.
\<close>

definition carriesIdentity :: "FingerprintConfig \<Rightarrow> event \<Rightarrow> bool" where
  "carriesIdentity fp ev =
     (case ev of
        NewContextWith opts storage \<Rightarrow>
          ctxLocale opts = locale_str fp \<and> ctxTimezoneId opts = timezoneId fp \<and>
          ctxColorScheme opts = colorScheme fp \<and> ctxReducedMotion opts = reducedMotion fp \<and>
          ctxForcedColors opts = forcedColors fp
      | WriteFileTo p st \<Rightarrow> fingerprint st = Some fp
      | _ \<Rightarrow> True)"

text \<open>The fingerprint synthesized from the host for the closure's locale.\<close>

definition hostFingerprint :: "closure \<Rightarrow> FingerprintConfig" where
  "hostFingerprint c = getHostMachineConfig (Some (cLocale c)) (cHost c)"

definition freshOrHost :: "closure \<Rightarrow> jsonValue \<Rightarrow> bool" where
  "freshOrHost c saved =
     (case saved of
        JsonObject st \<Rightarrow> fingerprint st = None \<or> fingerprint st = Some (hostFingerprint c)
      | _ \<Rightarrow> False)"


section \<open>Concrete runs\<close>

text \<open>
  A page on which everything works: no call throws, no URL carries a CAPTCHA marker,
  the first search box selector matches, and the first structured strategy finds two
  results.
\<close>

definition exResult :: "string \<Rightarrow> string \<Rightarrow> element" where
  "exResult t l =
     \<lparr> querySelector = (\<lambda>sel.
         if sel = ''h3'' then
           Some \<lparr> textContent = t, hrefAttribute = None, isHTMLAnchorElement = False,
                  href = [], parentTexts = [] \<rparr>
         else if sel = ''a'' then
           Some \<lparr> textContent = t, hrefAttribute = Some l, isHTMLAnchorElement = True,
                  href = l, parentTexts = [] \<rparr>
         else None) \<rparr>"

definition okSession :: session where
  "okSession =
     \<lparr> throws = (\<lambda>st. None), randomDevice = 1, randomDomain = 0,
       responseUrl = Some ''https://www.google.com/'',
       urlAfterGoto = ''https://www.google.com/'',
       urlAfterSearch = ''https://www.google.com/search?q=a'',
       urlAfterWait = ''https://www.google.com/search?q=a'',
       hasElement = (\<lambda>sel. sel = ''textarea[name='q']''),
       elementsOf = (\<lambda>sel. if sel = ''#search .g''
                           then [exResult ''A'' ''https://a.example/'',
                                 exResult ''B'' ''https://b.example/'']
                           else []),
       anchorsOf = [], stateDirExists = (\<lambda>ph. True) \<rparr>"

text \<open>The same page without any search box: the run fails in the guarded block.\<close>

definition noBoxSession :: session where
  "noBoxSession = okSession\<lparr> hasElement := (\<lambda>sel. False) \<rparr>"


text \<open>
  A target that keeps re-issuing the challenge: every URL it reports is the CAPTCHA
  page, and the wait for the user to solve it times out.
\<close>

definition captchaSession :: session where
  "captchaSession =
     okSession\<lparr> responseUrl := Some ''https://www.google.com/sorry/index'',
                urlAfterGoto := ''https://www.google.com/sorry/index'',
                urlAfterSearch := ''https://www.google.com/sorry/index'',
                urlAfterWait := ''https://www.google.com/sorry/index'',
                throws := (\<lambda>st. case st of WaitForNavigation k \<Rightarrow> Some ''Timeout''
                                 | _ \<Rightarrow> None) \<rparr>"

text \<open>An environment with no persisted state, playing the same session at every
  invocation.\<close>

definition exEnv :: "session \<Rightarrow> env" where
  "exEnv s =
     \<lparr> hostSignals = hostAt 0, existsSync = (\<lambda>p. False), readFileSync = (\<lambda>p. None),
       jsonParse = (\<lambda>d. None), playwrightDevices = (\<lambda>d. d \<in> set deviceList),
       getStateFilePath = (\<lambda>f. Some (''/home/u/.local/mcp/share/'' @ f)),
       sessions = (\<lambda>n. s) \<rparr>"

definition exOptions :: SearchOptions where
  "exOptions = \<lparr> limit = None, timeout = None, stateFile = Some ''s.json'',
                 noSaveState = None, locale_opt = None, debug = False \<rparr>"

text \<open>
  Three file systems around the state path \<open>s.json\<close>: a corrupt sidecar next to its
  snapshot; a corrupt sidecar without a snapshot; a valid sidecar (a persisted Tokyo
  identity) without a snapshot.
\<close>

definition corruptSidecarEnv :: env where
  "corruptSidecarEnv =
     (exEnv okSession)\<lparr> existsSync := (\<lambda>p. p = ''s.json'' \<or> p = ''s-fingerprint.json''),
                         readFileSync := (\<lambda>p. Some ''{'') \<rparr>"

definition corruptSidecarOnlyEnv :: env where
  "corruptSidecarOnlyEnv =
     (exEnv okSession)\<lparr> existsSync := (\<lambda>p. p = ''s-fingerprint.json''),
                         readFileSync := (\<lambda>p. Some ''{'') \<rparr>"

definition validSidecarOnlyEnv :: env where
  "validSidecarOnlyEnv =
     (exEnv okSession)\<lparr> existsSync := (\<lambda>p. p = ''s-fingerprint.json''),
        readFileSync := (\<lambda>p. Some ''{}''),
        jsonParse := (\<lambda>d. Some (JsonObject \<lparr> fingerprint =
            Some \<lparr> deviceName = ''Desktop Firefox'', locale_str = ''ja-JP'',
                   timezoneId = ''Asia/Tokyo'', colorScheme = Dark,
                   reducedMotion = NoPreference, forcedColors = NoForcedColors \<rparr>,
            googleDomain = Some ''https://www.google.ca'' \<rparr>)) \<rparr>"











section \<open>Termination of \<open>performSearch\<close>\<close>

text \<open>Only a headless invocation asks for a retry.\<close>

lemma andThen_Inr_iff:
  "andThen m f = (t, Inr b) \<longleftrightarrow>
     (\<exists>t1 a t2. m = (t1, Inr a) \<and> f a = (t2, Inr b) \<and> t = t1 @ t2)"
  by (cases m) (auto simp: andThen_def split: sum.splits prod.splits)

lemma thenFlow_Restart:
  assumes "thenFlow m f = (t, Inr Restart)"
  shows "(\<exists>t1. m = (t1, Inr Restart)) \<or> (\<exists>a t2. f a = (t2, Inr Restart))"
proof -
  from assms obtain t1 a t2 where m: "m = (t1, Inr a)"
    and f: "(case a of Restart \<Rightarrow> ret Restart | Continue b \<Rightarrow> f b) = (t2, Inr Restart)"
    unfolding thenFlow_def andThen_Inr_iff by blast
  show ?thesis
  proof (cases a)
    case (Continue b)
    with f show ?thesis by auto
  next
    case Restart
    with m show ?thesis by simp
  qed
qed

lemma captchaCheckpoint_Restart:
  "captchaCheckpoint c s headless blocked w = (t, Inr Restart) \<Longrightarrow> headless"
  by (auto simp: captchaCheckpoint_def andThen_Inr_iff ret_def split: if_splits)

lemma navigate_Restart: "navigate c s headless d = (t, Inr Restart) \<Longrightarrow> headless"
  by (auto simp: navigate_def andThen_Inr_iff Let_def dest: captchaCheckpoint_Restart)

lemma submitQuery_Restart: "submitQuery c s headless = (t, Inr Restart) \<Longrightarrow> headless"
  by (auto simp: submitQuery_def andThen_Inr_iff throw_def
           dest: captchaCheckpoint_Restart split: if_splits)

lemma waitForResults_Restart: "waitForResults c s headless = (t, Inr Restart) \<Longrightarrow> headless"
  by (auto simp: waitForResults_def andThen_Inr_iff throw_def ret_def split: if_splits)

lemma searchBody_Restart:
  assumes "searchBody c s headless d st = (t, Inr Restart)"
  shows "headless"
proof -
  from assms consider
      t1 where "navigate c s headless d = (t1, Inr Restart)"
    | t2 where "submitQuery c s headless = (t2, Inr Restart)"
    | t3 where "waitForResults c s headless = (t3, Inr Restart)"
    unfolding searchBody_def
    by (auto dest!: thenFlow_Restart simp: andThen_Inr_iff ret_def)
  then show ?thesis
    by cases (auto dest: navigate_Restart submitQuery_Restart waitForResults_Restart)
qed

lemma invocation_Retry:
  assumes "invocation c s headless saved = (t, Inr (Retry st))"
  shows "headless"
  using assms
  by (auto simp: invocation_def andThen_Inr_iff ret_def throw_def
           split: jsonValue.splits prod.splits sum.splits flow.splits if_splits
           dest: searchBody_Restart)

lemma attempt_Retry:
  assumes "attempt c s headless saved = (t, Inr (Retry st))"
  shows "headless"
  using assms
  by (auto simp: attempt_def andThen_Inr_iff dest: invocation_Retry)

termination performSearch
  by (relation "measure (\<lambda>(c, w, n, headless, saved). if headless then 1 else 0)")
     (auto dest: attempt_Retry [OF sym])

declare performSearch.simps [simp del]

section \<open>Reasoning about computations and their traces\<close>

lemma traceAll_ret: "traceAll P (ret a)"
  by (simp add: traceAll_def ret_def)

lemma traceAll_throw: "traceAll P (throw e)"
  by (simp add: traceAll_def throw_def)

lemma traceAll_emit: "P ev \<Longrightarrow> traceAll P (emit ev)"
  by (simp add: traceAll_def emit_def)

lemma traceAll_call: "P ev \<Longrightarrow> traceAll P (call s st ev)"
  by (simp add: traceAll_def call_def)

lemma traceAll_browserOp: "P (Op st) \<Longrightarrow> traceAll P (browserOp s st)"
  by (simp add: browserOp_def traceAll_call)

lemma fst_andThen:
  "fst (andThen m f) = (case snd m of Inl e \<Rightarrow> fst m | Inr a \<Rightarrow> fst m @ fst (f a))"
  by (cases m) (auto simp: andThen_def split: sum.splits prod.splits)

lemma snd_andThen:
  "snd (andThen m f) = (case snd m of Inl e \<Rightarrow> Inl e | Inr a \<Rightarrow> snd (f a))"
  by (cases m) (auto simp: andThen_def split: sum.splits prod.splits)

lemma fst_tryCatch:
  "fst (tryCatch m h) = (case snd m of Inl e \<Rightarrow> fst m @ fst (h e) | Inr a \<Rightarrow> fst m)"
  by (cases m) (auto simp: tryCatch_def split: sum.splits prod.splits)

lemma snd_tryCatch:
  "snd (tryCatch m h) = (case snd m of Inl e \<Rightarrow> snd (h e) | Inr a \<Rightarrow> Inr a)"
  by (cases m) (auto simp: tryCatch_def split: sum.splits prod.splits)

lemma traceAll_andThen:
  "traceAll P m \<Longrightarrow> (\<And>a. traceAll P (f a)) \<Longrightarrow> traceAll P (andThen m f)"
  by (simp add: traceAll_def fst_andThen split: sum.splits)

lemma traceAll_tryCatch:
  "traceAll P m \<Longrightarrow> (\<And>e. traceAll P (h e)) \<Longrightarrow> traceAll P (tryCatch m h)"
  by (simp add: traceAll_def fst_tryCatch split: sum.splits)

lemma traceAll_thenFlow:
  "traceAll P m \<Longrightarrow> (\<And>a. traceAll P (f a)) \<Longrightarrow> traceAll P (thenFlow m f)"
  unfolding thenFlow_def
  by (rule traceAll_andThen) (auto simp: traceAll_ret split: flow.splits)

lemmas traceAll_intros =
  traceAll_ret traceAll_throw traceAll_emit traceAll_call traceAll_browserOp
  traceAll_andThen traceAll_tryCatch traceAll_thenFlow

lemma traceAll_closeForRetry:
  "(\<And>st. P (Op st)) \<Longrightarrow> traceAll P (closeForRetry c s)"
  unfolding closeForRetry_def
  by (auto intro!: traceAll_intros)

lemma traceAll_captchaCheckpoint:
  "(\<And>st. P (Op st)) \<Longrightarrow> traceAll P w \<Longrightarrow> traceAll P (captchaCheckpoint c s headless b w)"
  unfolding captchaCheckpoint_def
  by (auto intro!: traceAll_intros traceAll_closeForRetry)

lemma traceAll_navigate:
  "(\<And>st. P (Op st)) \<Longrightarrow> P (GotoUrl d) \<Longrightarrow> traceAll P (navigate c s headless d)"
  unfolding navigate_def Let_def
  by (auto intro!: traceAll_intros traceAll_captchaCheckpoint)

lemma traceAll_findSearchInput:
  "(\<And>st. P (Op st)) \<Longrightarrow> traceAll P (findSearchInput s sels)"
  by (induction sels) (auto intro!: traceAll_intros)

lemma traceAll_submitQuery:
  "(\<And>st. P (Op st)) \<Longrightarrow> traceAll P (submitQuery c s headless)"
  unfolding submitQuery_def
  by (auto intro!: traceAll_intros traceAll_captchaCheckpoint traceAll_findSearchInput)

lemma traceAll_waitForResultSelector:
  "(\<And>st. P (Op st)) \<Longrightarrow> traceAll P (waitForResultSelector s r sels)"
  by (induction sels) (auto intro!: traceAll_intros)

lemma traceAll_waitForResults:
  "(\<And>st. P (Op st)) \<Longrightarrow> traceAll P (waitForResults c s headless)"
  unfolding waitForResults_def
  by (auto intro!: traceAll_intros traceAll_closeForRetry traceAll_waitForResultSelector)

lemma traceAll_extractStructured:
  "(\<And>st. P (Op st)) \<Longrightarrow> traceAll P (extractStructured s lim sels)"
  by (induction s lim sels rule: extractStructured.induct) (auto intro!: traceAll_intros)

lemma traceAll_extractResults:
  "(\<And>st. P (Op st)) \<Longrightarrow> traceAll P (extractResults c s)"
  unfolding extractResults_def
  by (auto intro!: traceAll_intros traceAll_extractStructured)

lemma traceAll_saveState:
  assumes "\<not> cNoSaveState c \<Longrightarrow>
     P (MkdirFor (cStateFile c)) \<and> P (StorageStateTo (cStateFile c)) \<and>
     P (WriteFileTo (cFingerprintFile c) st)"
  shows "traceAll P (saveState c s ph st)"
  unfolding saveState_def using assms
  by (auto intro!: traceAll_intros)

lemma traceAll_closeDecision:
  "(\<And>st. P (Op st)) \<Longrightarrow> traceAll P (closeDecision c s ph)"
  unfolding closeDecision_def
  by (auto intro!: traceAll_intros)

lemma traceAll_searchBody:
  assumes "\<And>st. P (Op st)" and "P (GotoUrl d)"
    and "\<not> cNoSaveState c \<Longrightarrow>
     P (MkdirFor (cStateFile c)) \<and> P (StorageStateTo (cStateFile c)) \<and>
     P (WriteFileTo (cFingerprintFile c) st)"
  shows "traceAll P (searchBody c s headless d st)"
  unfolding searchBody_def using assms
  by (intro traceAll_thenFlow traceAll_andThen traceAll_ret traceAll_navigate
        traceAll_submitQuery traceAll_waitForResults traceAll_browserOp
        traceAll_extractResults traceAll_saveState traceAll_closeDecision) auto

lemma traceAll_handler:
  assumes "\<And>st. P (Op st)"
    and "\<not> cNoSaveState c \<Longrightarrow>
     P (MkdirFor (cStateFile c)) \<and> P (StorageStateTo (cStateFile c)) \<and>
     P (WriteFileTo (cFingerprintFile c) st)"
  shows "traceAll P (handler c s st e)"
  unfolding handler_def using assms
  by (intro traceAll_andThen traceAll_ret traceAll_saveState traceAll_closeDecision) auto

lemma traceAll_guard:
  assumes body: "traceAll P body" and h: "\<And>e. traceAll P (handler c s st e)"
  shows "traceAll P
    (case body of
       (t, Inr (Continue response)) \<Rightarrow> (t, Inr (Done response))
     | (t, Inr Restart) \<Rightarrow> (t, Inr (Retry st))
     | (t, Inl error) \<Rightarrow>
         andThen (t, Inr ()) (\<lambda>_.
         andThen (handler c s st error) (\<lambda>response. ret (Done response))))"
proof (cases body)
  case (Pair t r)
  with body have t: "list_all P t" by (simp add: traceAll_def)
  show ?thesis
  proof (cases r)
    case (Inl e)
    from h [of e] have "list_all P (fst (handler c s st e))" by (simp add: traceAll_def)
    with t Pair Inl show ?thesis
      by (simp add: traceAll_def fst_andThen ret_def split: sum.splits)
  next
    case (Inr x)
    with t Pair show ?thesis by (cases x) (simp_all add: traceAll_def)
  qed
qed

lemma traceAll_invocation:
  assumes ops: "\<And>st. P (Op st)"
    and goto: "\<And>d. P (GotoUrl d)"
    and ctx: "\<And>st0. saved = JsonObject st0 \<Longrightarrow>
                P (NewContextWith (fst (buildContextOptions c s st0)) (storageState c))"
    and save: "\<And>st0. saved = JsonObject st0 \<Longrightarrow> \<not> cNoSaveState c \<Longrightarrow>
     P (MkdirFor (cStateFile c)) \<and> P (StorageStateTo (cStateFile c)) \<and>
     P (WriteFileTo (cFingerprintFile c)
          (snd (selectDomain s (snd (buildContextOptions c s st0)))))"
  shows "traceAll P (invocation c s headless saved)"
proof (cases saved)
  case JsonNull
  then show ?thesis
    unfolding invocation_def using ops
    by (auto intro!: traceAll_intros)
next
  case JsonPrimitive
  then show ?thesis
    unfolding invocation_def using ops
    by (auto intro!: traceAll_intros)
next
  case (JsonObject st0)
  obtain opts st1 where b: "buildContextOptions c s st0 = (opts, st1)"
    by (cases "buildContextOptions c s st0")
  obtain d st2 where sd: "selectDomain s st1 = (d, st2)"
    by (cases "selectDomain s st1")
  from save [OF JsonObject] b sd have save2: "\<not> cNoSaveState c \<Longrightarrow>
     P (MkdirFor (cStateFile c)) \<and> P (StorageStateTo (cStateFile c)) \<and>
     P (WriteFileTo (cFingerprintFile c) st2)"
    by simp
  have body: "traceAll P (searchBody c s headless d st2)"
    using ops goto save2 by (intro traceAll_searchBody) auto
  have h: "\<And>e. traceAll P (handler c s st2 e)"
    using ops save2 by (intro traceAll_handler) auto
  from ctx [OF JsonObject] b have "P (NewContextWith opts (storageState c))" by simp
  then show ?thesis
    unfolding invocation_def JsonObject jsonValue.case b prod.case sd using ops
    by (intro traceAll_andThen traceAll_emit traceAll_call traceAll_browserOp
          traceAll_guard [OF body h]) (auto intro!: traceAll_intros)
qed

lemma traceAll_attempt:
  assumes "P (Invoke headless)" and "traceAll P (invocation c s headless saved)"
  shows "traceAll P (attempt c s headless saved)"
  unfolding attempt_def using assms
  by (intro traceAll_andThen traceAll_emit)

lemma traceAll_performSearch:
  assumes "\<And>s h sv. I sv \<Longrightarrow> traceAll P (attempt c s h sv)"
    and "\<And>s h sv t st. I sv \<Longrightarrow> attempt c s h sv = (t, Inr (Retry st)) \<Longrightarrow> I (JsonObject st)"
    and "I saved"
  shows "traceAll P (performSearch c w n headless saved)"
  using assms
proof (induction c w n headless saved rule: performSearch.induct)
  case (1 c w n headless saved)
  note step = "1.prems"(1) and keep = "1.prems"(2) and init = "1.prems"(3)
  obtain t r where a: "attempt c (w n) headless saved = (t, r)"
    by (cases "attempt c (w n) headless saved")
  have "traceAll P (attempt c (w n) headless saved)"
    by (rule step [OF init])
  then have t: "list_all P t"
    unfolding traceAll_def a by simp
  show ?case
  proof (cases r)
    case (Inl e)
    with a t show ?thesis by (simp add: performSearch.simps [of c w n] traceAll_def)
  next
    case (Inr out)
    show ?thesis
    proof (cases out)
      case (Done resp)
      with a t Inr show ?thesis by (simp add: performSearch.simps [of c w n] traceAll_def)
    next
      case (Retry st)
      from keep [OF init] a Inr Retry have "I (JsonObject st)" by blast
      with "1.IH" [OF a [symmetric] Inr Retry] step keep
      have "traceAll P (performSearch c w (Suc n) False (JsonObject st))" by blast
      with a t Inr Retry show ?thesis
        by (auto simp: performSearch.simps [of c w n] traceAll_def split: prod.splits)
    qed
  qed
qed

lemma traceAll_loadState:
  assumes "\<And>p. P (ExistsSync p)" "\<And>p. P (ReadFileSync p)" "\<And>m. P (Warn m)"
  shows "traceAll P (loadState e file fp)"
  unfolding loadState_def using assms
  by (auto intro!: traceAll_intros split: option.splits)

lemma traceAll_resolveStateFile: "traceAll P (resolveStateFile e options)"
  unfolding resolveStateFile_def
  by (auto intro!: traceAll_intros split: option.splits)

lemma noSave_quiet:
  assumes "noSaveState options = Some True"
  shows "traceAll (\<lambda>ev. \<not> isStateWrite ev) (googleSearch q options existing e)"
proof -
  let ?P = "\<lambda>ev. \<not> isStateWrite ev"
  have run: "traceAll ?P (performSearch (makeClosure q options existing e sf storage)
               (sessions e) 0 h saved)" for sf storage h saved
  proof (rule traceAll_performSearch [where I = "\<lambda>_. True"])
    fix s h sv
    show "traceAll ?P (attempt (makeClosure q options existing e sf storage) s h sv)"
      using assms
      by (intro traceAll_attempt traceAll_invocation)
         (simp_all add: isStateWrite_def makeClosure_def)
  qed simp_all
  have ev: "?P (ExistsSync p)" "?P (ReadFileSync p)" "?P (Warn msg)" for p msg
    by (simp_all add: isStateWrite_def)
  show ?thesis
    unfolding googleSearch_def Let_def
    by (intro traceAll_andThen traceAll_resolveStateFile traceAll_loadState ev)
       (simp add: split_def run)
qed

lemma returns_ret: "Q a \<Longrightarrow> returns Q (ret a)"
  by (simp add: returns_def ret_def)

lemma returns_throw: "returns Q (throw e)"
  by (simp add: returns_def throw_def)

lemma returns_andThen2:
  assumes "returns R m" and "\<And>a. R a \<Longrightarrow> returns Q (f a)"
  shows "returns Q (andThen m f)"
proof (cases "snd m")
  case (Inl e)
  then show ?thesis by (simp add: returns_def snd_andThen)
next
  case (Inr a)
  with assms(1) have "R a" by (simp add: returns_def)
  from assms(2) [OF this] Inr show ?thesis by (simp add: returns_def snd_andThen)
qed

lemma returns_True: "returns (\<lambda>a. True) m"
  by (simp add: returns_def split: sum.splits)

lemma returns_andThen:
  "(\<And>a. returns Q (f a)) \<Longrightarrow> returns Q (andThen m f)"
  by (rule returns_andThen2 [OF returns_True])

lemma returns_tryCatch:
  assumes "returns Q m" and "\<And>e. returns Q (h e)"
  shows "returns Q (tryCatch m h)"
proof (cases "snd m")
  case (Inl e)
  with assms(2) [of e] show ?thesis by (simp add: returns_def snd_tryCatch)
next
  case (Inr a)
  with assms(1) show ?thesis by (simp add: returns_def snd_tryCatch)
qed

lemma returns_thenFlow:
  assumes "Q Restart" and "\<And>a. returns Q (f a)"
  shows "returns Q (thenFlow m f)"
  unfolding thenFlow_def using assms
  by (intro returns_andThen) (auto intro: returns_ret split: flow.splits)

lemma length_slice0: "0 \<le> n \<Longrightarrow> int (length (slice0 xs n)) \<le> n"
  by (simp add: slice0_def)

lemma goodResults_filter_map:
  "goodResults lim (filter nonEmptyItem (map f (slice0 xs lim)))"
proof -
  have "length (filter nonEmptyItem (map f (slice0 xs lim))) \<le> length (slice0 xs lim)"
    by (metis length_filter_le length_map)
  then have "int (length (filter nonEmptyItem (map f (slice0 xs lim))))
               \<le> int (length (slice0 xs lim))"
    by linarith
  with length_slice0 [of lim xs]
  have "0 \<le> lim \<longrightarrow> int (length (filter nonEmptyItem (map f (slice0 xs lim)))) \<le> lim"
    by linarith
  moreover have "list_all nonEmptyItem (filter nonEmptyItem (map f (slice0 xs lim)))"
    by (simp add: list_all_iff)
  ultimately show ?thesis
    unfolding goodResults_def by blast
qed

lemma goodResults_evalStructured: "goodResults lim (evalStructured els lim ts ss)"
  unfolding evalStructured_def by (rule goodResults_filter_map)

lemma goodResults_evalFallback: "goodResults lim (evalFallback els lim)"
  unfolding evalFallback_def by (rule goodResults_filter_map)

lemma returns_extractStructured:
  "returns (goodResults lim) (extractStructured s lim sels)"
proof (induction s lim sels rule: extractStructured.induct)
  case (1 s lim)
  show ?case by (simp add: returns_ret goodResults_def)
next
  case (2 s lim container titleSel snippetSel selectors)
  have first: "returns (goodResults lim)
     (tryCatch
        (andThen (browserOp s (EvalAll container)) (\<lambda>_.
           ret (evalStructured (elementsOf s container) lim titleSel snippetSel)))
        (\<lambda>e. ret []))"
    by (intro returns_tryCatch returns_andThen returns_ret goodResults_evalStructured)
       (simp add: goodResults_def)
  show ?case
    unfolding extractStructured.simps
  proof (rule returns_andThen2 [OF first])
    fix results
    assume good: "goodResults lim results"
    show "returns (goodResults lim)
            (if 0 < length results then ret results else extractStructured s lim selectors)"
    proof (cases "0 < length results")
      case True
      with good show ?thesis by (simp add: returns_ret)
    next
      case False
      with "2.IH" [of results] show ?thesis by simp
    qed
  qed
qed

lemma returns_extractResults:
  "returns (goodResults (cLimit c)) (extractResults c s)"
  unfolding extractResults_def
  by (rule returns_andThen2 [OF returns_extractStructured])
     (auto intro!: returns_andThen returns_ret goodResults_evalFallback)

lemma returns_mono:
  assumes "returns Q m" and "\<And>a. Q a \<Longrightarrow> Q' a"
  shows "returns Q' m"
  using assms by (auto simp: returns_def split: sum.splits)

lemma isDiagnostic_failure: "isDiagnostic [failureResult e]"
  by (simp add: isDiagnostic_def failureResult_def)

lemma returns_searchBody:
  "returns (\<lambda>fl. case fl of Restart \<Rightarrow> True
                  | Continue r \<Rightarrow> query r = cQuery c \<and> goodResults (cLimit c) (results r))
     (searchBody c s headless d st)"
  unfolding searchBody_def
  apply (rule returns_thenFlow, simp)+
  apply (rule returns_andThen)
  apply (rule returns_andThen2 [OF returns_extractResults])
  apply (rule returns_andThen)+
  apply (simp add: returns_ret)
  done

lemma returns_handler:
  "returns (responseShape (cQuery c) lim) (handler c s st e)"
  unfolding handler_def
  by (intro returns_andThen returns_ret)
     (simp add: responseShape_def isDiagnostic_failure)

lemma returns_guard:
  assumes body: "returns (\<lambda>fl. case fl of Restart \<Rightarrow> True | Continue r \<Rightarrow> Q (Done r)) body"
    and h: "\<And>e. returns (\<lambda>r. Q (Done r)) (handler c s st e)"
    and retry: "Q (Retry st)"
  shows "returns Q
    (case body of
       (t, Inr (Continue response)) \<Rightarrow> (t, Inr (Done response))
     | (t, Inr Restart) \<Rightarrow> (t, Inr (Retry st))
     | (t, Inl error) \<Rightarrow>
         andThen (t, Inr ()) (\<lambda>_.
         andThen (handler c s st error) (\<lambda>response. ret (Done response))))"
proof (cases body)
  case (Pair t r)
  show ?thesis
  proof (cases r)
    case (Inl e)
    have "returns Q (andThen (handler c s st e) (\<lambda>response. ret (Done response)))"
      by (rule returns_andThen2 [OF h]) (simp add: returns_ret)
    then have "returns Q (andThen (t, Inr ()) (\<lambda>_.
                 andThen (handler c s st e) (\<lambda>response. ret (Done response))))"
      by (rule returns_andThen)
    with Pair Inl show ?thesis by simp
  next
    case (Inr x)
    with body Pair retry show ?thesis by (cases x) (simp_all add: returns_def)
  qed
qed

lemma returns_invocation:
  "returns (outcomeShape (cQuery c) (cLimit c)) (invocation c s headless saved)"
proof (cases saved)
  case JsonNull
  then show ?thesis
    unfolding invocation_def by (auto intro!: returns_andThen returns_throw)
next
  case JsonPrimitive
  then show ?thesis
    unfolding invocation_def by (auto intro!: returns_andThen returns_throw)
next
  case (JsonObject st0)
  obtain opts st1 where b: "buildContextOptions c s st0 = (opts, st1)"
    by (cases "buildContextOptions c s st0")
  obtain d st2 where sd: "selectDomain s st1 = (d, st2)"
    by (cases "selectDomain s st1")
  have body: "returns (\<lambda>fl. case fl of Restart \<Rightarrow> True
                 | Continue r \<Rightarrow> outcomeShape (cQuery c) (cLimit c) (Done r))
               (searchBody c s headless d st2)"
    by (rule returns_mono [OF returns_searchBody])
       (simp add: outcomeShape_def responseShape_def split: flow.splits)
  have h: "\<And>e. returns (\<lambda>r. outcomeShape (cQuery c) (cLimit c) (Done r)) (handler c s st2 e)"
    by (rule returns_mono [OF returns_handler]) (simp add: outcomeShape_def)
  show ?thesis
    unfolding invocation_def JsonObject jsonValue.case b prod.case sd
    by (intro returns_andThen returns_guard [OF body h]) (simp add: outcomeShape_def)
qed

lemma returns_attempt:
  "returns (outcomeShape (cQuery c) (cLimit c)) (attempt c s headless saved)"
  unfolding attempt_def by (intro returns_andThen returns_invocation)

lemma returns_performSearch:
  assumes "\<And>s h sv. returns (\<lambda>out. case out of Done r \<Rightarrow> Q r | Retry st \<Rightarrow> True)
                        (attempt c s h sv)"
  shows "returns Q (performSearch c w n headless saved)"
  using assms
proof (induction c w n headless saved rule: performSearch.induct)
  case (1 c w n headless saved)
  note step = "1.prems"
  obtain t r where a: "attempt c (w n) headless saved = (t, r)"
    by (cases "attempt c (w n) headless saved")
  show ?case
  proof (cases r)
    case (Inl e)
    with a show ?thesis by (simp add: performSearch.simps [of c w n] returns_def)
  next
    case (Inr out)
    show ?thesis
    proof (cases out)
      case (Done resp)
      from step [of "w n" headless saved] a Inr Done have "Q resp"
        by (simp add: returns_def)
      with a Inr Done show ?thesis
        by (simp add: performSearch.simps [of c w n] returns_def)
    next
      case (Retry st)
      from "1.IH" [OF a [symmetric] Inr Retry] step
      have "returns Q (performSearch c w (Suc n) False (JsonObject st))" by blast
      with a Inr Retry show ?thesis
        by (auto simp: performSearch.simps [of c w n] returns_def split: prod.splits)
    qed
  qed
qed

lemma returns_googleSearch:
  "returns (responseShape q (case limit options of None \<Rightarrow> 10 | Some l \<Rightarrow> l))
     (googleSearch q options existing e)"
proof -
  have run: "returns (responseShape q (case limit options of None \<Rightarrow> 10 | Some l \<Rightarrow> l))
               (performSearch (makeClosure q options existing e sf storage)
                  (sessions e) 0 h saved)" for sf storage h saved
  proof (rule returns_performSearch)
    fix s h sv
    show "returns (\<lambda>out. case out of
                     Done r \<Rightarrow> responseShape q (case limit options of None \<Rightarrow> 10 | Some l \<Rightarrow> l) r
                   | Retry st \<Rightarrow> True)
            (attempt (makeClosure q options existing e sf storage) s h sv)"
      by (rule returns_mono [OF returns_attempt])
         (simp add: outcomeShape_def makeClosure_def split: outcome.splits)
  qed
  show ?thesis
    unfolding googleSearch_def Let_def
    by (intro returns_andThen) (simp add: split_def run)
qed

lemma noBox_run:
  "snd (googleSearch ''a'' exOptions False (exEnv noBoxSession)) =
     Inr \<lparr> query = ''a'', results = [failureResult ''Could not find search box''] \<rparr>"
  by code_simp

lemma noBox_run_limit0:
  "snd (googleSearch ''a'' (exOptions\<lparr> limit := Some 0 \<rparr>) False (exEnv noBoxSession)) =
     Inr \<lparr> query = ''a'', results = [failureResult ''Could not find search box''] \<rparr>"
  by code_simp

lemma ok_run:
  "snd (googleSearch ''a'' exOptions False (exEnv okSession)) =
     Inr \<lparr> query = ''a'',
           results = [\<lparr> title = ''A'', link = ''https://a.example/'', snippet = [] \<rparr>,
                      \<lparr> title = ''B'', link = ''https://b.example/'', snippet = [] \<rparr>] \<rparr>"
  by code_simp

lemma invocations_Nil: "invocations [] = 0"
  by (simp add: invocations_def)

lemma invocations_append: "invocations (t @ t') = invocations t + invocations t'"
  by (simp add: invocations_def)

lemma invocations_none: "list_all (\<lambda>ev. \<not> isInvoke ev) t \<Longrightarrow> invocations t = 0"
  by (simp add: invocations_def list_all_iff)

lemma invocations_invocation: "invocations (fst (invocation c s headless saved)) = 0"
proof -
  have "traceAll (\<lambda>ev. \<not> isInvoke ev) (invocation c s headless saved)"
    by (rule traceAll_invocation) (simp_all add: isInvoke_def)
  then show ?thesis by (simp add: traceAll_def invocations_none)
qed

lemma invocations_attempt: "invocations (fst (attempt c s headless saved)) = 1"
proof -
  have "fst (attempt c s headless saved) = Invoke headless # fst (invocation c s headless saved)"
    by (simp add: attempt_def fst_andThen emit_def)
  then show ?thesis
    using invocations_invocation [of c s headless saved]
    by (simp add: invocations_def isInvoke_def)
qed

lemma invocations_performSearch_visible:
  "invocations (fst (performSearch c w n False saved)) = 1"
proof -
  obtain t r where a: "attempt c (w n) False saved = (t, r)"
    by (cases "attempt c (w n) False saved")
  from invocations_attempt [of c "w n" False saved] a have t: "invocations t = 1" by simp
  have "\<And>st. r \<noteq> Inr (Retry st)"
    using attempt_Retry [of c "w n" False saved t] a by auto
  with a t show ?thesis
    by (auto simp: performSearch.simps [of c w n] split: sum.splits outcome.splits)
qed

lemma invocations_performSearch:
  "invocations (fst (performSearch c w n headless saved)) \<le> 2"
proof -
  obtain t r where a: "attempt c (w n) headless saved = (t, r)"
    by (cases "attempt c (w n) headless saved")
  from invocations_attempt [of c "w n" headless saved] a have t: "invocations t = 1" by simp
  show ?thesis
  proof (cases r)
    case (Inl e)
    with a t show ?thesis by (simp add: performSearch.simps [of c w n])
  next
    case (Inr out)
    show ?thesis
    proof (cases out)
      case (Done resp)
      with a t Inr show ?thesis by (simp add: performSearch.simps [of c w n])
    next
      case (Retry st)
      with a t Inr invocations_performSearch_visible [of c w "Suc n" "JsonObject st"]
      show ?thesis
        by (auto simp: performSearch.simps [of c w n] invocations_append split: prod.splits)
    qed
  qed
qed

lemma invocations_loadState: "invocations (fst (loadState e sf fp)) = 0"
proof -
  have "traceAll (\<lambda>ev. \<not> isInvoke ev) (loadState e sf fp)"
    by (rule traceAll_loadState) (simp_all add: isInvoke_def)
  then show ?thesis by (simp add: traceAll_def invocations_none)
qed

lemma fst_resolveStateFile: "fst (resolveStateFile e options) = []"
  by (simp add: resolveStateFile_def ret_def throw_def split: option.splits)

lemma invocations_googleSearch:
  "invocations (fst (googleSearch q options existing e)) \<le> 2"
  unfolding googleSearch_def Let_def
  using invocations_loadState invocations_performSearch
  by (auto simp: fst_andThen fst_resolveStateFile invocations_append invocations_Nil
                 split_def split: sum.splits)

lemma succeeds_ret: "succeeds (ret a)"
  by (simp add: succeeds_def ret_def)


lemma succeeds_tryCatch:
  assumes "\<And>e. succeeds (h e)"
  shows "succeeds (tryCatch m h)"
proof (cases "snd m")
  case (Inl e)
  with assms [of e] show ?thesis by (simp add: succeeds_def snd_tryCatch)
next
  case (Inr a)
  then show ?thesis by (simp add: succeeds_def snd_tryCatch)
qed



lemma succeeds_saveState: "succeeds (saveState c s ph st)"
  unfolding saveState_def by (rule succeeds_tryCatch) (rule succeeds_ret)








lemma snd_saveState: "snd (saveState c s ph st) = Inr ()"
  using succeeds_saveState [of c s ph st]
  by (cases "snd (saveState c s ph st)") (simp_all add: succeeds_def)

lemma invocation_catches:
  assumes ok: "setupSucceeds (existingBrowser c) (cDebug c) s"
    and body: "searchBody c s headless (stagedDomain c s st0) (stagedState c s st0) = (t, Inl err)"
  shows "snd (invocation c s headless (JsonObject st0)) =
           Inr (Done \<lparr> query = cQuery c, results = [failureResult err] \<rparr>) \<and>
         (\<exists>pre. fst (invocation c s headless (JsonObject st0)) =
                  pre @ t @ fst (saveState c s InHandler (stagedState c s st0))
                      @ fst (closeDecision c s InHandler))"
proof -
  obtain opts st1 where b: "buildContextOptions c s st0 = (opts, st1)"
    by (cases "buildContextOptions c s st0")
  obtain d st2 where sd: "selectDomain s st1 = (d, st2)"
    by (cases "selectDomain s st1")
  from body b sd have body': "searchBody c s headless d st2 = (t, Inl err)"
    by (simp add: stagedDomain_def stagedState_def)
  from ok have close: "snd (closeDecision c s InHandler) = Inr ()"
    by (auto simp: closeDecision_def setupSucceeds_def browserOp_def call_def ret_def)
  have h: "handler c s st2 err =
             (fst (saveState c s InHandler st2) @ fst (closeDecision c s InHandler),
              Inr \<lparr> query = cQuery c, results = [failureResult err] \<rparr>)"
    by (rule prod_eqI)
       (simp_all add: handler_def fst_andThen snd_andThen snd_saveState close ret_def)
  from ok have pre: "(existingBrowser c \<or> throws s ChromiumLaunch = None) \<and>
      throws s NewContext = None \<and> throws s ContextAddInitScript = None \<and>
      throws s NewPage = None \<and> throws s PageAddInitScript = None"
    by (simp add: setupSucceeds_def)
  have "invocation c s headless (JsonObject st0) =
          ((if existingBrowser c then [] else [Op ChromiumLaunch]) @
           [NewContextWith opts (storageState c), Op ContextAddInitScript, Op NewPage,
            Op PageAddInitScript] @ t @
           fst (saveState c s InHandler st2) @ fst (closeDecision c s InHandler),
           Inr (Done \<lparr> query = cQuery c, results = [failureResult err] \<rparr>))"
    using pre
    by (auto simp: invocation_def b sd body' h andThen_def browserOp_def call_def ret_def)
  with b sd show ?thesis
    by (auto simp: stagedState_def)
qed

lemma loadState_absent:
  "\<not> existsSync e sf \<Longrightarrow> loadState e sf fp = ([ExistsSync sf], Inr (None, JsonObject emptyState))"
  by (simp add: loadState_def andThen_def emit_def ret_def)

lemma loadState_unparsable:
  assumes "existsSync e sf" "existsSync e fp" "unparsable e fp"
  shows "loadState e sf fp =
           ([ExistsSync sf, ExistsSync fp, ReadFileSync fp,
             Warn ''Cannot load fingerprint file, will create new fingerprint''],
            Inr (Some sf, JsonObject emptyState))"
  using assms
  by (auto simp: loadState_def unparsable_def andThen_def tryCatch_def emit_def ret_def
                 throw_def split: option.splits)

lemma fingerprint_selectDomain:
  "fingerprint (snd (selectDomain s st)) = fingerprint st"
  by (simp add: selectDomain_def Let_def split: option.splits)

lemma buildContextOptions_identity:
  assumes "fingerprint st = None \<or> fingerprint st = Some (hostFingerprint c)"
  shows "carriesIdentity (hostFingerprint c)
           (NewContextWith (fst (buildContextOptions c s st)) storage) \<and>
         fingerprint (snd (buildContextOptions c s st)) = Some (hostFingerprint c)"
  using assms
  by (auto simp: buildContextOptions_def carriesIdentity_def hostFingerprint_def Let_def)

lemma stagedState_identity:
  assumes "fingerprint st = None \<or> fingerprint st = Some (hostFingerprint c)"
  shows "fingerprint (stagedState c s st) = Some (hostFingerprint c)"
  using buildContextOptions_identity [OF assms]
  by (simp add: stagedState_def fingerprint_selectDomain)

lemma invocation_Retry_state:
  assumes "invocation c s headless (JsonObject st0) = (t, Inr (Retry st))"
  shows "st = stagedState c s st0"
  using assms
  by (auto simp: invocation_def stagedState_def andThen_Inr_iff ret_def
           split: prod.splits sum.splits flow.splits if_splits)

lemma attempt_keeps_identity:
  assumes "freshOrHost c sv" and "attempt c s h sv = (t, Inr (Retry st))"
  shows "freshOrHost c (JsonObject st)"
proof -
  from assms(1) obtain st0 where sv: "sv = JsonObject st0"
    and fp: "fingerprint st0 = None \<or> fingerprint st0 = Some (hostFingerprint c)"
    by (cases sv) (auto simp: freshOrHost_def)
  from assms(2) sv obtain t' where "invocation c s h (JsonObject st0) = (t', Inr (Retry st))"
    by (auto simp: attempt_def andThen_Inr_iff)
  then have "st = stagedState c s st0" by (rule invocation_Retry_state)
  with stagedState_identity [OF fp] show ?thesis by (simp add: freshOrHost_def)
qed

lemma identity_attempt:
  assumes "freshOrHost c sv"
  shows "traceAll (carriesIdentity (hostFingerprint c)) (attempt c s h sv)"
proof -
  from assms obtain st0 where sv: "sv = JsonObject st0"
    and fp: "fingerprint st0 = None \<or> fingerprint st0 = Some (hostFingerprint c)"
    by (cases sv) (auto simp: freshOrHost_def)
  show ?thesis
  proof (rule traceAll_attempt)
    show "carriesIdentity (hostFingerprint c) (Invoke h)"
      by (simp add: carriesIdentity_def)
    show "traceAll (carriesIdentity (hostFingerprint c)) (invocation c s h sv)"
    proof (rule traceAll_invocation)
      fix st0' assume "sv = JsonObject st0'"
      with sv have eq: "st0' = st0" by simp
      show "carriesIdentity (hostFingerprint c)
              (NewContextWith (fst (buildContextOptions c s st0')) (storageState c))"
        unfolding eq using buildContextOptions_identity [OF fp] by blast
      show "carriesIdentity (hostFingerprint c) (MkdirFor (cStateFile c)) \<and>
            carriesIdentity (hostFingerprint c) (StorageStateTo (cStateFile c)) \<and>
            carriesIdentity (hostFingerprint c)
              (WriteFileTo (cFingerprintFile c)
                 (snd (selectDomain s (snd (buildContextOptions c s st0')))))"
        unfolding eq using stagedState_identity [OF fp, of s]
        by (simp add: carriesIdentity_def stagedState_def)
    qed (simp_all add: carriesIdentity_def)
  qed
qed

lemma identity_performSearch:
  assumes "freshOrHost c saved"
  shows "traceAll (carriesIdentity (hostFingerprint c)) (performSearch c w n headless saved)"
  by (rule traceAll_performSearch [where I = "freshOrHost c", OF identity_attempt
        attempt_keeps_identity assms])

lemma googleSearch_unfold:
  assumes "snd (resolveStateFile e options) = Inr sf"
    and "loadState e sf (fingerprintFileOf sf) = (tload, Inr (storage, saved))"
  shows "googleSearch q options existing e =
           (tload @ fst (performSearch (makeClosure q options existing e sf storage)
                        (sessions e) 0 (\<not> debug options) saved),
            snd (performSearch (makeClosure q options existing e sf storage)
                   (sessions e) 0 (\<not> debug options) saved))"
proof -
  from assms(1) have "resolveStateFile e options = ([], Inr sf)"
    using fst_resolveStateFile [of e options] by (metis prod.collapse)
  with assms(2) show ?thesis
    by (simp add: googleSearch_def Let_def andThen_def fingerprintFileOf_def
             split: prod.splits)
qed

lemma hostFingerprint_makeClosure:
  "hostFingerprint (makeClosure q options existing e sf storage) =
     getHostMachineConfig (Some (effectiveLocale options)) (hostSignals e)"
  by (simp add: hostFingerprint_def makeClosure_def effectiveLocale_def)

lemma freshOrHost_empty: "freshOrHost c (JsonObject emptyState)"
  by (simp add: freshOrHost_def emptyState_def)

lemma quiet_performSearch:
  assumes "\<And>st. P (Op st)" "\<And>h. P (Invoke h)" "\<And>d. P (GotoUrl d)"
    "\<And>opts. P (NewContextWith opts (storageState c))"
    "\<And>p. P (MkdirFor p)" "\<And>p. P (StorageStateTo p)" "\<And>p st. P (WriteFileTo p st)"
  shows "traceAll P (performSearch c w n headless saved)"
proof (rule traceAll_performSearch [where I = "\<lambda>_. True"])
  fix s h sv
  show "traceAll P (attempt c s h sv)"
    using assms by (intro traceAll_attempt traceAll_invocation) simp_all
qed simp_all

lemma absent_run:
  assumes rs: "snd (resolveStateFile e options) = Inr sf" and ab: "\<not> existsSync e sf"
  shows "traceAll (\<lambda>ev. \<not> isRead ev \<and> noSnapshot ev \<and> \<not> isLoadWarning ev \<and>
           carriesIdentity (getHostMachineConfig (Some (effectiveLocale options))
                              (hostSignals e)) ev)
           (googleSearch q options existing e)"
proof -
  let ?c = "makeClosure q options existing e sf None"
  let ?run = "performSearch ?c (sessions e) 0 (\<not> debug options) (JsonObject emptyState)"
  let ?fp = "getHostMachineConfig (Some (effectiveLocale options)) (hostSignals e)"
  have g: "googleSearch q options existing e = ([ExistsSync sf] @ fst ?run, snd ?run)"
    by (rule googleSearch_unfold [OF rs loadState_absent [OF ab]])
  have "traceAll (\<lambda>ev. \<not> isRead ev) ?run"
    by (rule quiet_performSearch) (simp_all add: isRead_def)
  moreover have "traceAll noSnapshot ?run"
    by (rule quiet_performSearch) (simp_all add: noSnapshot_def makeClosure_def)
  moreover have "traceAll (\<lambda>ev. \<not> isLoadWarning ev) ?run"
    by (rule quiet_performSearch) (simp_all add: isLoadWarning_def)
  moreover have "traceAll (carriesIdentity ?fp) ?run"
    using identity_performSearch [OF freshOrHost_empty, of ?c]
    by (simp add: hostFingerprint_makeClosure)
  ultimately show ?thesis
    unfolding g
    by (simp add: traceAll_def list_all_iff isRead_def noSnapshot_def isLoadWarning_def
                  carriesIdentity_def)
qed

lemma unparsable_run:
  assumes rs: "snd (resolveStateFile e options) = Inr sf" and ex: "existsSync e sf"
    and fx: "existsSync e (fingerprintFileOf sf)" and un: "unparsable e (fingerprintFileOf sf)"
  shows "list_ex isLoadWarning (fst (googleSearch q options existing e)) \<and>
         traceAll (carriesIdentity (getHostMachineConfig (Some (effectiveLocale options))
                                      (hostSignals e)))
           (googleSearch q options existing e)"
proof -
  let ?c = "makeClosure q options existing e sf (Some sf)"
  let ?run = "performSearch ?c (sessions e) 0 (\<not> debug options) (JsonObject emptyState)"
  let ?fp = "getHostMachineConfig (Some (effectiveLocale options)) (hostSignals e)"
  have g: "googleSearch q options existing e =
             ([ExistsSync sf, ExistsSync (fingerprintFileOf sf),
               ReadFileSync (fingerprintFileOf sf),
               Warn ''Cannot load fingerprint file, will create new fingerprint'']
              @ fst ?run, snd ?run)"
    by (rule googleSearch_unfold [OF rs loadState_unparsable [OF ex fx un]])
  have "traceAll (carriesIdentity ?fp) ?run"
    using identity_performSearch [OF freshOrHost_empty, of ?c]
    by (simp add: hostFingerprint_makeClosure)
  then show ?thesis
    unfolding g
    by (simp add: traceAll_def isLoadWarning_def carriesIdentity_def)
qed

lemma corrupt_facts:
  "snd (resolveStateFile corruptSidecarEnv exOptions) = Inr ''s.json'' \<and>
   existsSync corruptSidecarEnv ''s.json'' \<and>
   existsSync corruptSidecarEnv (fingerprintFileOf ''s.json'') \<and>
   unparsable corruptSidecarEnv (fingerprintFileOf ''s.json'')"
  by code_simp

lemma validOnly_facts:
  "snd (resolveStateFile validSidecarOnlyEnv exOptions) = Inr ''s.json'' \<and>
   \<not> existsSync validSidecarOnlyEnv ''s.json'' \<and>
   existsSync validSidecarOnlyEnv (fingerprintFileOf ''s.json'')"
  by code_simp





































section \<open>Properties of the fingerprint synthesizer\<close>

text \<open>
  C6, at the offset of UTC+8 (\<open>-480\<close> minutes): the source's first interval is closed on
  the right, so the code answers Asia/Shanghai where the table of the specification
  answers Asia/Bangkok.
\<close>

theorem C6_timezone_counterexample:
  "timezoneId (getHostMachineConfig None (hostAt (-480))) = ''Asia/Shanghai'' \<and>
   spec_timezoneId (-480) = ''Asia/Bangkok''"
  by (simp add: getHostMachineConfig_def hostAt_def spec_timezoneId_def)

text \<open>
  C6, amended: the table of the source. Offsets in (-600,-480] give Asia/Shanghai,
  offsets at most -600 give Asia/Tokyo, offsets in (-480,-420] give Asia/Bangkok,
  (-60,0] gives Europe/London, (0,60] gives Europe/Berlin, and every other offset,
  (240,300] included, gives America/New_York.
\<close>

theorem C6_timezone_table:
  "timezoneId (getHostMachineConfig userLocale h) =
    (let off = timezoneOffset h in
     if -600 < off \<and> off \<le> -480 then ''Asia/Shanghai''
     else if off \<le> -600 then ''Asia/Tokyo''
     else if -480 < off \<and> off \<le> -420 then ''Asia/Bangkok''
     else if -60 < off \<and> off \<le> 0 then ''Europe/London''
     else if 0 < off \<and> off \<le> 60 then ''Europe/Berlin''
     else ''America/New_York'')"
  by (simp add: getHostMachineConfig_def Let_def)

theorem C6_timezone_table_witness:
  "timezoneId (getHostMachineConfig None (hostAt (-600))) = ''Asia/Tokyo''"
  using C6_timezone_table [of None "hostAt (-600)"]
  by (simp add: hostAt_def)

text \<open>
  C9: whatever the locale override and the host signals (platform family, offset, hour),
  the synthesized fingerprint names the device Desktop Chrome.
\<close>

theorem C9_device_always_desktop_chrome:
  "deviceName (getHostMachineConfig userLocale h) = ''Desktop Chrome''"
  by (simp add: getHostMachineConfig_def Let_def)

section \<open>Properties of the search controller\<close>

text \<open>
  C8: with \<open>noSaveState = true\<close> no run of \<open>googleSearch\<close> writes the storage snapshot
  or the identity sidecar: the trace of the run, whether it ends in a response, in the
  diagnostic response of the failure path, or in a propagated exception, has no
  \<open>storageState({path})\<close> and no \<open>writeFileSync\<close> event.
\<close>

theorem C8_noSaveState_writes_nothing:
  assumes "noSaveState options = Some True"
  shows "\<forall>ev \<in> set (fst (googleSearch q options existing e)). \<not> isStateWrite ev"
  using noSave_quiet [OF assms, of q existing e]
  by (simp add: traceAll_def list_all_iff)

theorem C8_noSaveState_writes_nothing_witness:
  "noSaveState (exOptions\<lparr> noSaveState := Some True \<rparr>) = Some True \<and>
   list_all (\<lambda>ev. \<not> isStateWrite ev)
     (fst (googleSearch ''a'' (exOptions\<lparr> noSaveState := Some True \<rparr>) False
             (exEnv noBoxSession)))"
  using C8_noSaveState_writes_nothing
          [of "exOptions\<lparr> noSaveState := Some True \<rparr>" "''a''" False "exEnv noBoxSession"]
  by (simp add: list_all_iff)

text \<open>
  C3, on the failure path: a page without a search box makes the run fail in the
  guarded block, and the diagnostic entry that is returned has an empty link.
\<close>

theorem C3_diagnostic_link_empty_counterexample:
  "snd (googleSearch ''a'' exOptions False (exEnv noBoxSession)) =
     Inr \<lparr> query = ''a'', results = [failureResult ''Could not find search box''] \<rparr> \<and>
   link (failureResult ''Could not find search box'') = []"
  using noBox_run by (simp add: failureResult_def)

text \<open>
  C3, amended: in every response returned by \<open>googleSearch\<close> every result has a
  non-empty title; and either the response is the diagnostic one of the failure path
  (a single entry titled \<open>Search failed\<close>, whose link is empty), or every result, from
  the structured strategies or from the fallback anchor scan, has a non-empty link too.
\<close>

theorem C3_title_and_link:
  assumes "snd (googleSearch q options existing e) = Inr resp"
  shows "(\<forall>r \<in> set (results resp). title r \<noteq> []) \<and>
         (isDiagnostic (results resp) \<or> (\<forall>r \<in> set (results resp). link r \<noteq> []))"
proof -
  from returns_googleSearch [of q options existing e] assms
  have shape: "goodResults (case limit options of None \<Rightarrow> 10 | Some l \<Rightarrow> l) (results resp)
               \<or> isDiagnostic (results resp)"
    by (simp add: returns_def responseShape_def)
  then show ?thesis
  proof
    assume "goodResults (case limit options of None \<Rightarrow> 10 | Some l \<Rightarrow> l) (results resp)"
    then show ?thesis
      by (simp add: goodResults_def list_all_iff nonEmptyItem_def)
  next
    assume d: "isDiagnostic (results resp)"
    then obtain x where "results resp = [x]" and "title x = ''Search failed''"
      by (auto simp: isDiagnostic_def split: list.splits)
    with d show ?thesis by simp
  qed
qed

theorem C3_title_and_link_witness:
  "snd (googleSearch ''a'' exOptions False (exEnv okSession)) =
     Inr \<lparr> query = ''a'',
           results = [\<lparr> title = ''A'', link = ''https://a.example/'', snippet = [] \<rparr>,
                      \<lparr> title = ''B'', link = ''https://b.example/'', snippet = [] \<rparr>] \<rparr> \<and>
   list_all (\<lambda>r. title r \<noteq> [] \<and> link r \<noteq> [])
     [\<lparr> title = ''A'', link = ''https://a.example/'', snippet = [] \<rparr>,
      \<lparr> title = ''B'', link = ''https://b.example/'', snippet = [] \<rparr>]"
  using C3_title_and_link [OF ok_run] ok_run by (simp add: isDiagnostic_def)

text \<open>
  C4, on the failure path with \<open>limit = 0\<close>: the diagnostic response holds one entry,
  which is more than the limit.
\<close>

theorem C4_diagnostic_exceeds_limit_counterexample:
  "effectiveLimit (exOptions\<lparr> limit := Some 0 \<rparr>) = 0 \<and>
   snd (googleSearch ''a'' (exOptions\<lparr> limit := Some 0 \<rparr>) False (exEnv noBoxSession)) =
     Inr \<lparr> query = ''a'', results = [failureResult ''Could not find search box''] \<rparr> \<and>
   \<not> int (length [failureResult ''Could not find search box''])
        \<le> effectiveLimit (exOptions\<lparr> limit := Some 0 \<rparr>)"
  using noBox_run_limit0 by (simp add: effectiveLimit_def exOptions_def)

text \<open>
  C4, amended: when the limit in force (\<open>options.limit\<close>, default 10) is at least 1,
  every response returned by \<open>googleSearch\<close>, the diagnostic one included, has at most
  that many results.
\<close>

theorem C4_limit_bound:
  assumes "snd (googleSearch q options existing e) = Inr resp"
    and "1 \<le> effectiveLimit options"
  shows "int (length (results resp)) \<le> effectiveLimit options"
proof -
  from returns_googleSearch [of q options existing e] assms(1)
  have "goodResults (effectiveLimit options) (results resp) \<or> isDiagnostic (results resp)"
    by (simp add: returns_def responseShape_def effectiveLimit_def)
  then show ?thesis
  proof
    assume "goodResults (effectiveLimit options) (results resp)"
    with assms(2) show ?thesis by (simp add: goodResults_def)
  next
    assume "isDiagnostic (results resp)"
    then have "length (results resp) = 1"
      by (auto simp: isDiagnostic_def split: list.splits)
    with assms(2) show ?thesis by simp
  qed
qed

theorem C4_limit_bound_witness:
  "1 \<le> effectiveLimit exOptions \<and>
   int (length [\<lparr> title = ''A'', link = ''https://a.example/'', snippet = [] \<rparr>,
                \<lparr> title = ''B'', link = ''https://b.example/'', snippet = [] \<rparr>])
     \<le> effectiveLimit exOptions"
proof -
  have l: "1 \<le> effectiveLimit exOptions"
    by (simp add: effectiveLimit_def exOptions_def)
  from C4_limit_bound [OF ok_run l] l show ?thesis by simp
qed

text \<open>
  C5, at a target that keeps re-issuing the challenge (every URL it reports is the
  CAPTCHA page and the wait for the user times out): \<open>performSearch\<close> is entered
  twice, once headless and once visible, and the run ends with the diagnostic
  response. The retry does not repeat.
\<close>

theorem C5_retry_happens_once_counterexample:
  "invocations (fst (googleSearch ''a'' exOptions False (exEnv captchaSession))) = 2 \<and>
   snd (googleSearch ''a'' exOptions False (exEnv captchaSession)) =
     Inr \<lparr> query = ''a'', results = [failureResult ''Timeout''] \<rparr>"
  by code_simp

text \<open>
  C5, amended: the CAPTCHA retry is bounded. Whatever the target answers, one run of
  \<open>googleSearch\<close> enters \<open>performSearch\<close> at most twice: only a headless invocation
  retries, and it retries in visible mode, where a CAPTCHA is waited out instead.
\<close>

theorem C5_at_most_two_invocations:
  "invocations (fst (googleSearch q options existing e)) \<le> 2"
  by (rule invocations_googleSearch)




text \<open>
  C7, at a corrupt sidecar without its snapshot: the sidecar exists and its contents
  do not parse, but the load phase never looks at it, and no warning is logged.
\<close>

theorem C7_no_warning_without_snapshot_counterexample:
  "snd (resolveStateFile corruptSidecarOnlyEnv exOptions) = Inr ''s.json'' \<and>
   existsSync corruptSidecarOnlyEnv (fingerprintFileOf ''s.json'') \<and>
   unparsable corruptSidecarOnlyEnv (fingerprintFileOf ''s.json'') \<and>
   \<not> list_ex isLoadWarning (fst (googleSearch ''a'' exOptions False corruptSidecarOnlyEnv))"
  by code_simp

text \<open>
  C7, amended. If the identity sidecar of the state path exists but its contents fail
  to parse, the load phase throws nothing and leaves the saved state empty, as if no
  prior identity existed; every context of the run is then created with, and every
  sidecar written with, the fingerprint synthesized from the host; and the warning is
  logged exactly when the storage snapshot exists too (without the snapshot the sidecar
  is not read at all).
\<close>

theorem C7_unparsable_sidecar:
  assumes "snd (resolveStateFile e options) = Inr sf"
    and "existsSync e (fingerprintFileOf sf)"
    and "unparsable e (fingerprintFileOf sf)"
  shows "(\<exists>storage. snd (loadState e sf (fingerprintFileOf sf)) =
                      Inr (storage, JsonObject emptyState)) \<and>
         (list_ex isLoadWarning (fst (googleSearch q options existing e))
            \<longleftrightarrow> existsSync e sf) \<and>
         (\<forall>ev \<in> set (fst (googleSearch q options existing e)).
            carriesIdentity
              (getHostMachineConfig (Some (effectiveLocale options)) (hostSignals e)) ev)"
proof (cases "existsSync e sf")
  case True
  from loadState_unparsable [OF True assms(2) assms(3)]
  have "\<exists>storage. snd (loadState e sf (fingerprintFileOf sf)) = Inr (storage, JsonObject emptyState)"
    by simp
  with unparsable_run [OF assms(1) True assms(2) assms(3), of q existing] True
  show ?thesis
    by (simp add: traceAll_def list_all_iff)
next
  case False
  from loadState_absent [OF False, of "fingerprintFileOf sf"]
  have l: "\<exists>storage. snd (loadState e sf (fingerprintFileOf sf)) = Inr (storage, JsonObject emptyState)"
    by simp
  from absent_run [OF assms(1) False, of q existing]
  have "\<forall>ev \<in> set (fst (googleSearch q options existing e)).
          \<not> isLoadWarning ev \<and>
          carriesIdentity
            (getHostMachineConfig (Some (effectiveLocale options)) (hostSignals e)) ev"
    by (simp add: traceAll_def list_all_iff)
  with l False show ?thesis
    by (simp add: list_ex_iff)
qed

theorem C7_unparsable_sidecar_witness:
  "snd (resolveStateFile corruptSidecarEnv exOptions) = Inr ''s.json'' \<and>
   existsSync corruptSidecarEnv (fingerprintFileOf ''s.json'') \<and>
   unparsable corruptSidecarEnv (fingerprintFileOf ''s.json'') \<and>
   list_ex isLoadWarning (fst (googleSearch ''a'' exOptions False corruptSidecarEnv)) \<and>
   list_all
     (carriesIdentity
        (getHostMachineConfig (Some (effectiveLocale exOptions)) (hostSignals corruptSidecarEnv)))
     (fst (googleSearch ''a'' exOptions False corruptSidecarEnv))"
proof -
  note f = corrupt_facts
  from f have h1: "snd (resolveStateFile corruptSidecarEnv exOptions) = Inr ''s.json''"
    and h2: "existsSync corruptSidecarEnv (fingerprintFileOf ''s.json'')"
    and h3: "unparsable corruptSidecarEnv (fingerprintFileOf ''s.json'')"
    and h4: "existsSync corruptSidecarEnv ''s.json''"
    by simp_all
  from C7_unparsable_sidecar [OF h1 h2 h3, of "''a''" False] h1 h2 h3 h4
  show ?thesis
    by (simp add: list_all_iff)
qed

text \<open>
  C10: when the storage snapshot at the state path does not exist, \<open>googleSearch\<close>
  reads no file at all, so an existing sidecar, valid or not, is never consulted; no
  context is created from a snapshot; and every context of the run is created with,
  and every sidecar written with, the fingerprint synthesized from the host. The
  identity persisted in a sidecar without its snapshot is not reused.
\<close>

theorem C10_sidecar_needs_snapshot:
  assumes "snd (resolveStateFile e options) = Inr sf"
    and "\<not> existsSync e sf"
  shows "\<forall>ev \<in> set (fst (googleSearch q options existing e)).
           \<not> isRead ev \<and> noSnapshot ev \<and>
           carriesIdentity
             (getHostMachineConfig (Some (effectiveLocale options)) (hostSignals e)) ev"
  using absent_run [OF assms, of q existing]
  by (simp add: traceAll_def list_all_iff)

theorem C10_sidecar_needs_snapshot_witness:
  "snd (resolveStateFile validSidecarOnlyEnv exOptions) = Inr ''s.json'' \<and>
   \<not> existsSync validSidecarOnlyEnv ''s.json'' \<and>
   existsSync validSidecarOnlyEnv (fingerprintFileOf ''s.json'') \<and>
   list_all
     (\<lambda>ev. \<not> isRead ev \<and> noSnapshot ev \<and>
        carriesIdentity
          (getHostMachineConfig (Some (effectiveLocale exOptions))
             (hostSignals validSidecarOnlyEnv)) ev)
     (fst (googleSearch ''a'' exOptions False validSidecarOnlyEnv))"
proof -
  note f = validOnly_facts
  from f have h1: "snd (resolveStateFile validSidecarOnlyEnv exOptions) = Inr ''s.json''"
    and h2: "\<not> existsSync validSidecarOnlyEnv ''s.json''"
    and h3: "existsSync validSidecarOnlyEnv (fingerprintFileOf ''s.json'')"
    by simp_all
  from C10_sidecar_needs_snapshot [OF h1 h2, of "''a''" False] h1 h2 h3
  show ?thesis
    by (simp add: list_all_iff)
qed

section \<open>Properties of the multi-query coordinator\<close>




end
